theory Spec2Isabelle
  imports Main "HOL-Library.Word"
begin

section \<open>The ZK Memory contract (contracts/zk-memory/src/lib.rs, as given in the implementation plan)\<close>

text \<open>
  The Soroban contract is embedded with explicit state passing. An invocation takes the
  contract's environment and returns a result together with the environment as it is when
  the invocation stops. A \<open>panic_with_error!\<close> is the abort \<open>ContractError e\<close>, an
  \<open>unwrap\<close> of \<open>None\<close>, an out-of-bounds \<open>Vec::set\<close> and an arithmetic overflow
  (the contract profile checks overflow) are the abort \<open>Panic\<close>, a failed
  \<open>require_auth\<close> is \<open>AuthFailed\<close>. The environment holds the instance storage
  (admin, hub address), the temporary storage (the sessions) and the calls made to the hub;
  the time-to-live of an entry is not part of it. The addresses that authorise an invocation
  are the list \<open>signers\<close>.
\<close>

type_synonym u32 = "32 word"
type_synonym i128 = "128 word"
type_synonym Address = string
type_synonym Bytes = "8 word list"

datatype CardState = FaceDown | Matched

record GameState =
  session_id :: u32
  player1 :: Address
  player2 :: Address
  deck_commitment :: Bytes
  cards :: "CardState list"
  score1 :: u32
  score2 :: u32
  current_turn :: Address
  flip_one :: "u32 option"
  flip_one_value :: "u32 option"
  pairs_found :: u32
  is_active :: bool

datatype Error =
    GameNotFound
  | GameNotActive
  | NotYourTurn
  | CardAlreadyMatched
  | InvalidProof
  | InvalidPosition

text \<open>The numeric codes of the \<open>Error\<close> enum, as the client sees them in \<open>Error(Contract, #n)\<close>.\<close>

fun error_code :: "Error \<Rightarrow> nat" where
  "error_code GameNotFound = 1"
| "error_code GameNotActive = 2"
| "error_code NotYourTurn = 3"
| "error_code CardAlreadyMatched = 4"
| "error_code InvalidProof = 5"
| "error_code InvalidPosition = 6"

datatype Abort = ContractError Error | Panic | AuthFailed

text \<open>Calls made to the Game Hub contract through \<open>GameHubClient\<close>, in the order they are made.\<close>

datatype HubCall =
    HubStartGame Address u32 Address Address i128 i128
  | HubEndGame Address u32 bool

record Env =
  admin :: "Address option"
  game_hub_address :: "Address option"
  games :: "u32 \<rightharpoonup> GameState"
  hub_calls :: "HubCall list"

text \<open>\<open>Vec::get\<close> returns \<open>None\<close> out of bounds; \<open>Vec::set\<close> panics out of bounds.\<close>

definition vec_get :: "'a list \<Rightarrow> u32 \<Rightarrow> 'a option" where
  "vec_get v i = (if unat i < length v then Some (v ! unat i) else None)"

definition vec_set :: "'a list \<Rightarrow> u32 \<Rightarrow> 'a \<Rightarrow> Abort + 'a list" where
  "vec_set v i x = (if unat i < length v then Inr (v[unat i := x]) else Inl Panic)"

text \<open>\<open>x += 1\<close> on a \<open>u32\<close> with overflow checks.\<close>

definition add_one :: "u32 \<Rightarrow> Abort + u32" where
  "add_one x = (if x = - 1 then Inl Panic else Inr (x + 1))"

subsection \<open>Proof verification\<close>

text \<open>
  \<open>verify_card_reveal_proof\<close> as the source has it: the body is a TODO and comments only, so
  the call returns for every proof, every list of public inputs and every commitment.
\<close>

definition verify_card_reveal_proof :: "Bytes \<Rightarrow> Bytes list \<Rightarrow> Bytes \<Rightarrow> Abort + unit" where
  "verify_card_reveal_proof proof public_inputs commitment = Inr ()"

text \<open>
  The body that the source keeps in comments for production:
  \<open>env.crypto().verify_groth16_bn254(&vk, public_inputs, proof)
     .unwrap_or_else(|_| panic_with_error!(&env, Error::InvalidProof))\<close>.
  The host function and the verification key are parameters. The \<open>deck_commitment\<close>
  argument is not read in this body either.
\<close>

definition verify_card_reveal_proof_bn254 ::
    "(Bytes \<Rightarrow> Bytes list \<Rightarrow> Bytes \<Rightarrow> bool) \<Rightarrow> Bytes \<Rightarrow> Bytes \<Rightarrow> Bytes list \<Rightarrow> Bytes \<Rightarrow> Abort + unit" where
  "verify_card_reveal_proof_bn254 verify_groth16_bn254 vk proof public_inputs commitment =
     (if verify_groth16_bn254 vk public_inputs proof then Inr ()
      else Inl (ContractError InvalidProof))"


subsection \<open>start_game\<close>

definition start_game ::
    "Env \<Rightarrow> Address \<Rightarrow> Address list \<Rightarrow> u32 \<Rightarrow> Address \<Rightarrow> Address \<Rightarrow> i128 \<Rightarrow> i128 \<Rightarrow> Bytes
      \<Rightarrow> (Abort + u32) \<times> Env" where
  "start_game env current_contract_address signers sid p1 p2 player1_points player2_points commitment =
     (if p1 \<notin> set signers then (Inl AuthFailed, env)
      else if p2 \<notin> set signers then (Inl AuthFailed, env)
      else
        let cards0 = replicate 16 FaceDown;
            game = \<lparr> session_id = sid, player1 = p1, player2 = p2,
                     deck_commitment = commitment, cards = cards0,
                     score1 = 0, score2 = 0, current_turn = p1,
                     flip_one = None, flip_one_value = None,
                     pairs_found = 0, is_active = True \<rparr>
        in case game_hub_address env of
             None \<Rightarrow> (Inl Panic, env)
           | Some game_hub \<Rightarrow>
               (Inr sid,
                env \<lparr> hub_calls := hub_calls env @
                         [HubStartGame current_contract_address sid p1 p2 player1_points player2_points],
                      games := (games env)(sid \<mapsto> game) \<rparr>))"



subsection \<open>flip_card\<close>

text \<open>The block under \<open>=== GAME LOGIC ===\<close>, on the local copy \<open>game\<close>.\<close>

definition other_player :: "GameState \<Rightarrow> Address" where
  "other_player game =
     (if current_turn game = player1 game then player2 game else player1 game)"

definition game_logic :: "GameState \<Rightarrow> u32 \<Rightarrow> u32 \<Rightarrow> Abort + GameState" where
  "game_logic game position revealed_value =
     (case flip_one game of
        None \<Rightarrow>
          Inr (game \<lparr> flip_one := Some position, flip_one_value := Some revealed_value \<rparr>)
      | Some pos_a \<Rightarrow>
          (case flip_one_value game of
             None \<Rightarrow> Inl Panic
           | Some val_a \<Rightarrow>
               (if val_a = revealed_value \<and> pos_a \<noteq> position then
                  (case vec_set (cards game) pos_a Matched of
                     Inl e \<Rightarrow> Inl e
                   | Inr c1 \<Rightarrow>
                  (case vec_set c1 position Matched of
                     Inl e \<Rightarrow> Inl e
                   | Inr c2 \<Rightarrow>
                  (case add_one (pairs_found game) of
                     Inl e \<Rightarrow> Inl e
                   | Inr pf \<Rightarrow>
                  (if current_turn game = player1 game then
                     (case add_one (score1 game) of
                        Inl e \<Rightarrow> Inl e
                      | Inr s \<Rightarrow>
                          Inr (game \<lparr> cards := c2, score1 := s, flip_one := None,
                                      flip_one_value := None, pairs_found := pf \<rparr>))
                   else
                     (case add_one (score2 game) of
                        Inl e \<Rightarrow> Inl e
                      | Inr s \<Rightarrow>
                          Inr (game \<lparr> cards := c2, score2 := s, flip_one := None,
                                      flip_one_value := None, pairs_found := pf \<rparr>))))))
                else
                  Inr (game \<lparr> current_turn := other_player game,
                              flip_one := None, flip_one_value := None \<rparr>))))"

text \<open>
  The whole entry point. The verifier is a parameter, so that both the body the source has
  and the body it keeps in comments can be plugged in; \<open>flip_card\<close> below is the source's.
  \<open>caller\<close> is \<open>env.invoker()\<close>.
\<close>

definition flip_card_with ::
    "(Bytes \<Rightarrow> Bytes list \<Rightarrow> Bytes \<Rightarrow> Abort + unit) \<Rightarrow> Env \<Rightarrow> Address \<Rightarrow> u32 \<Rightarrow> u32 \<Rightarrow> u32 \<Rightarrow> Bytes
      \<Rightarrow> Bytes list \<Rightarrow> (Abort + unit) \<times> Env" where
  "flip_card_with verifier env caller sid position revealed_value proof public_inputs =
     (case games env sid of
        None \<Rightarrow> (Inl Panic, env)
      | Some game \<Rightarrow>
          if \<not> is_active game then (Inl (ContractError GameNotActive), env)
          else if caller \<noteq> current_turn game then (Inl (ContractError NotYourTurn), env)
          else if 16 \<le> position then (Inl (ContractError InvalidPosition), env)
          else
            (case vec_get (cards game) position of
               None \<Rightarrow> (Inl Panic, env)
             | Some card_state \<Rightarrow>
                 if card_state = Matched then (Inl (ContractError CardAlreadyMatched), env)
                 else
                   (case verifier proof public_inputs (deck_commitment game) of
                      Inl e \<Rightarrow> (Inl e, env)
                    | Inr _ \<Rightarrow>
                        (case game_logic game position revealed_value of
                           Inl e \<Rightarrow> (Inl e, env)
                         | Inr game1 \<Rightarrow>
                             if pairs_found game1 = 8 then
                               (case game_hub_address env of
                                  None \<Rightarrow> (Inl Panic, env)
                                | Some game_hub \<Rightarrow>
                                    (Inr (),
                                     env \<lparr> hub_calls := hub_calls env @
                                              [HubEndGame game_hub sid (score2 game1 < score1 game1)],
                                           games := (games env)(sid \<mapsto> game1 \<lparr> is_active := False \<rparr>) \<rparr>))
                             else
                               (Inr (), env \<lparr> games := (games env)(sid \<mapsto> game1) \<rparr>)))))"

definition flip_card ::
    "Env \<Rightarrow> Address \<Rightarrow> u32 \<Rightarrow> u32 \<Rightarrow> u32 \<Rightarrow> Bytes \<Rightarrow> Bytes list \<Rightarrow> (Abort + unit) \<times> Env" where
  "flip_card = flip_card_with verify_card_reveal_proof"

text \<open>\<open>get_game\<close>: the stored session, or the panic of the \<open>unwrap\<close>.\<close>

definition get_game :: "Env \<Rightarrow> u32 \<Rightarrow> Abort + GameState" where
  "get_game env sid = (case games env sid of None \<Rightarrow> Inl Panic | Some g \<Rightarrow> Inr g)"


subsection \<open>Reachable sessions\<close>

text \<open>
  The sessions that \<open>start_game\<close> creates and that accepted \<open>flip_card\<close> calls lead to.
  The environment around the session is arbitrary at every step.
\<close>

inductive reachable :: "GameState \<Rightarrow> bool" where
  created:
    "start_game env addr signers sid p1 p2 pts1 pts2 c = (Inr r, env') \<Longrightarrow>
     games env' sid = Some g \<Longrightarrow> reachable g"
| flipped:
    "reachable g \<Longrightarrow> games env sid = Some g \<Longrightarrow>
     flip_card env caller sid pos rv zkp pis = (Inr (), env') \<Longrightarrow>
     games env' sid = Some g' \<Longrightarrow> reachable g'"

definition session_inv :: "GameState \<Rightarrow> bool" where
  "session_inv g \<longleftrightarrow>
     unat (score1 g) + unat (score2 g) = unat (pairs_found g)
     \<and> unat (pairs_found g) \<le> 8
     \<and> (is_active g \<longleftrightarrow> pairs_found g \<noteq> 8)
     \<and> length (cards g) = 16
     \<and> (flip_one g = None \<longleftrightarrow> flip_one_value g = None)
     \<and> (current_turn g = player1 g \<or> current_turn g = player2 g)"


section \<open>Concrete sessions\<close>

text \<open>
  A sequence of \<open>flip_card\<close> invocations on one session, each given as
  (caller, position, revealed value), with a proof of 128 zero bytes and no public inputs;
  an invocation that aborts leaves the environment as it was.
\<close>

definition proof_128 :: Bytes where
  "proof_128 = replicate 128 0"

fun run_flips :: "Env \<Rightarrow> u32 \<Rightarrow> (Address \<times> u32 \<times> u32) list \<Rightarrow> Env" where
  "run_flips env sid [] = env"
| "run_flips env sid ((caller, position, revealed_value) # rest) =
     run_flips (snd (flip_card env caller sid position revealed_value proof_128 [])) sid rest"

definition alice :: Address where "alice = ''GALICE''"
definition bob :: Address where "bob = ''GBOB''"
definition hub_id :: Address where "hub_id = ''CHUB''"
definition contract_id :: Address where "contract_id = ''CZKMEMORY''"
definition commitment_A :: Bytes where "commitment_A = replicate 32 0xAB"

definition env_empty :: Env where
  "env_empty = \<lparr> admin = Some ''GADMIN'', game_hub_address = Some hub_id,
                 games = Map.empty, hub_calls = [] \<rparr>"

definition game_new :: GameState where
  "game_new = \<lparr> session_id = 1, player1 = alice, player2 = bob,
                deck_commitment = commitment_A, cards = replicate 16 FaceDown,
                score1 = 0, score2 = 0, current_turn = alice,
                flip_one = None, flip_one_value = None,
                pairs_found = 0, is_active = True \<rparr>"

definition env_of :: "GameState \<Rightarrow> Env" where
  "env_of g = \<lparr> admin = Some ''GADMIN'', game_hub_address = Some hub_id,
                games = [1 \<mapsto> g], hub_calls = [] \<rparr>"

definition game_first :: GameState where
  "game_first = game_new \<lparr> flip_one := Some 1, flip_one_value := Some 1 \<rparr>"

definition game_matched :: GameState where
  "game_matched = game_new \<lparr> cards := (replicate 16 FaceDown)[1 := Matched, 9 := Matched],
                              score1 := 1, pairs_found := 1 \<rparr>"

definition game_missed :: GameState where
  "game_missed = game_new \<lparr> current_turn := bob \<rparr>"

definition tie_play :: "(Address \<times> u32 \<times> u32) list" where
  "tie_play = [(alice, 0, 0), (alice, 8, 0), (alice, 1, 1), (alice, 9, 1),
               (alice, 2, 2), (alice, 10, 2), (alice, 3, 3), (alice, 11, 3),
               (alice, 4, 4), (alice, 5, 5),
               (bob, 4, 4), (bob, 12, 4), (bob, 5, 5), (bob, 13, 5),
               (bob, 6, 6), (bob, 14, 6), (bob, 7, 7)]"

definition game_tie_last :: GameState where
  "game_tie_last = game_new \<lparr> cards := (replicate 15 Matched @ [FaceDown])[7 := FaceDown],
                               score1 := 4, score2 := 3, current_turn := bob,
                               flip_one := Some 7, flip_one_value := Some 7, pairs_found := 7 \<rparr>"

definition game_tie_final :: GameState where
  "game_tie_final = game_new \<lparr> cards := replicate 16 Matched,
                               score1 := 4, score2 := 4, current_turn := bob,
                               pairs_found := 8, is_active := False \<rparr>"







definition reject_all :: "Bytes \<Rightarrow> Bytes list \<Rightarrow> Bytes \<Rightarrow> bool" where
  "reject_all vk public_inputs zkp = False"


section \<open>The client's flip submission (ZkMemoryGame.tsx, handleFlipCard)\<close>

text \<open>
  The transport is an oracle: \<open>flipCard t k\<close> is what the \<open>k\<close>-th submission does
  (\<open>None\<close>: it resolves; \<open>Some m\<close>: it throws an \<open>Error\<close> with message \<open>m\<close>),
  \<open>getGame t k i\<close> what the \<open>i\<close>-th query after that submission does (it throws, or
  resolves to a session or to null), \<open>refreshGame t k\<close> what the query in the
  \<open>catch\<close> block does. The events are the calls the handler makes, in order;
  \<open>Wait\<close> and \<open>Backoff\<close> are both \<open>setTimeout\<close> delays in milliseconds, the second one
  the delay of the \<open>catch\<close> block. \<open>poll\<close> is the \<open>for\<close> loop that re-reads the session,
  \<open>attempt\<close> the body of the \<open>try\<close>, \<open>flip_retry_loop\<close> the \<open>while\<close> loop with its
  \<open>catch\<close> (the third argument is \<open>retries\<close>), \<open>handleFlipCard_submit\<close> the outer
  \<open>try\<close>/\<open>catch\<close> from \<open>let retries = 3\<close> on.
\<close>


text \<open>\<open>String.prototype.str_includes\<close>: the pattern occurs somewhere in the text.\<close>

text \<open>\<open>String.prototype.includes\<close>: the pattern occurs somewhere in the text.\<close>

fun str_includes :: "string \<Rightarrow> string \<Rightarrow> bool" where
  "str_includes [] pat = (pat = [])"
| "str_includes (c # cs) pat = (take (length pat) (c # cs) = pat \<or> str_includes cs pat)"

record Transport =
  flipCard :: "nat \<Rightarrow> string option"
  getGame :: "nat \<Rightarrow> nat \<Rightarrow> string + GameState option"
  refreshGame :: "nat \<Rightarrow> string + GameState option"

datatype event =
    Submit
  | SetSuccess
  | Wait nat
  | Backoff int
  | Query
  | Refresh
  | SetGameState GameState
  | SetError string

datatype outcome = Returned | Thrown string | ThrownNull

function poll ::
    "Transport \<Rightarrow> GameState \<Rightarrow> nat \<Rightarrow> nat \<Rightarrow> GameState option
      \<Rightarrow> (string + GameState option) \<times> event list" where
  "poll t gameState k i game =
     (if i < 3 then
        (case getGame t k i of
           Inl m \<Rightarrow> (Inl m, [Query])
         | Inr None \<Rightarrow>
             (let (r, evs) = poll t gameState k (i + 1) None in (r, Query # evs))
         | Inr (Some g) \<Rightarrow>
             if flip_one gameState \<noteq> None \<and> flip_one g = None then (Inr (Some g), [Query])
             else if i < 2 then
               (let (r, evs) = poll t gameState k (i + 1) (Some g) in (r, Query # Wait 1000 # evs))
             else
               (let (r, evs) = poll t gameState k (i + 1) (Some g) in (r, Query # evs)))
      else (Inr game, []))"
  by pat_completeness auto
termination
  by (relation "measure (\<lambda>(t, gameState, k, i, game). 3 - i)") auto

definition attempt :: "Transport \<Rightarrow> GameState \<Rightarrow> nat \<Rightarrow> (string + GameState option) \<times> event list" where
  "attempt t gameState k =
     (case flipCard t k of
        Some m \<Rightarrow> (Inl m, [Submit])
      | None \<Rightarrow>
          (case poll t gameState k 0 None of
             (Inl m, evs) \<Rightarrow> (Inl m, [Submit, SetSuccess, Wait 1500] @ evs)
           | (Inr None, evs) \<Rightarrow> (Inr None, [Submit, SetSuccess, Wait 1500] @ evs)
           | (Inr (Some g), evs) \<Rightarrow>
               (Inr (Some g), [Submit, SetSuccess, Wait 1500] @ evs @ [SetGameState g, SetSuccess])))"

definition error_text :: "string \<Rightarrow> string" where
  "error_text m = (if m = [] then ''Error'' else m)"

definition is_transient :: "string \<Rightarrow> bool" where
  "is_transient m \<longleftrightarrow>
     str_includes (error_text m) ''TRY_AGAIN_LATER'' \<or> str_includes (error_text m) ''txBadSeq''"

definition is_not_your_turn :: "string \<Rightarrow> bool" where
  "is_not_your_turn m \<longleftrightarrow> str_includes (error_text m) ''Error(Contract, #3)''"

definition stale_message :: string where
  "stale_message = ''Game state was stale. Please try again - it should be your turn now.''"

fun flip_retry_loop ::
    "Transport \<Rightarrow> GameState \<Rightarrow> nat \<Rightarrow> nat \<Rightarrow> string option \<Rightarrow> outcome \<times> event list" where
  "flip_retry_loop t gameState 0 k lastError =
     (case lastError of None \<Rightarrow> (ThrownNull, []) | Some m \<Rightarrow> (Thrown m, []))"
| "flip_retry_loop t gameState (Suc n) k lastError =
     (case attempt t gameState k of
        (Inr game, evs) \<Rightarrow> (Returned, evs)
      | (Inl m, evs) \<Rightarrow>
          if is_transient m \<and> 1 < Suc n then
            (let (out, evs') = flip_retry_loop t gameState n (Suc k) (Some m)
             in (out, evs @ Backoff (1000 * (4 - int n)) # evs'))
          else if is_not_your_turn m then
            (case refreshGame t k of
               Inl m' \<Rightarrow> (Thrown m', evs @ [Refresh])
             | Inr None \<Rightarrow> (Thrown stale_message, evs @ [Refresh])
             | Inr (Some g) \<Rightarrow> (Thrown stale_message, evs @ [Refresh, SetGameState g]))
          else (Thrown m, evs))"

definition handleFlipCard_submit :: "Transport \<Rightarrow> GameState \<Rightarrow> event list" where
  "handleFlipCard_submit t gameState =
     (case flip_retry_loop t gameState 3 0 None of
        (Returned, evs) \<Rightarrow> evs
      | (Thrown m, evs) \<Rightarrow>
          evs @ [SetError
            (let errorMsg = (if m = [] then ''Failed to flip card'' else m)
             in if str_includes errorMsg ''TRY_AGAIN_LATER''
                then ''Network is busy. Please try again in a moment.'' else errorMsg)]
      | (ThrownNull, evs) \<Rightarrow> evs)"

definition submissions :: "event list \<Rightarrow> nat" where
  "submissions evs = length (filter (\<lambda>e. e = Submit) evs)"

definition backoffs :: "event list \<Rightarrow> int list" where
  "backoffs evs = concat (map (\<lambda>e. case e of Backoff d \<Rightarrow> [d] | _ \<Rightarrow> []) evs)"

declare poll.simps [simp del]


text \<open>What the loop has done when it stops, read off its last attempt.\<close>

definition last_attempt_ok ::
    "Transport \<Rightarrow> GameState \<Rightarrow> nat \<Rightarrow> nat \<Rightarrow> outcome \<Rightarrow> event list \<Rightarrow> bool" where
  "last_attempt_ok t gs budget a out evs =
     (case fst (attempt t gs a) of
        Inr game \<Rightarrow> out = Returned \<and> Refresh \<notin> set evs
      | Inl m \<Rightarrow>
          (if is_transient m then submissions evs = budget else True)
          \<and> (if is_not_your_turn m
             then Refresh \<in> set evs
                  \<and> (case refreshGame t a of
                        Inl m' \<Rightarrow> out = Thrown m'
                      | Inr game \<Rightarrow> out = Thrown stale_message)
             else out = Thrown m \<and> Refresh \<notin> set evs))"


text \<open>Three transports: always busy, a stale turn, a rejected proof.\<close>

definition transport_busy :: Transport where
  "transport_busy = \<lparr> flipCard = (\<lambda>k. Some ''Sending the transaction failed: TRY_AGAIN_LATER''),
                       getGame = (\<lambda>k i. Inr None), refreshGame = (\<lambda>k. Inr None) \<rparr>"

definition transport_stale :: Transport where
  "transport_stale = \<lparr> flipCard = (\<lambda>k. Some ''HostError: Error(Contract, #3)''),
                        getGame = (\<lambda>k i. Inr None), refreshGame = (\<lambda>k. Inr (Some game_missed)) \<rparr>"

definition transport_proof_rejected :: Transport where
  "transport_proof_rejected = \<lparr> flipCard = (\<lambda>k. Some ''HostError: Error(Contract, #5)''),
                        getGame = (\<lambda>k i. Inr None), refreshGame = (\<lambda>k. Inr None) \<rparr>"


section \<open>The client's session creation (deckUtils.ts, ZkMemoryGame.tsx)\<close>

subsection \<open>JSON text of the exported deck data\<close>

text \<open>
  \<open>JSON.stringify\<close> on the object \<open>{deck, salt, commitment}\<close>: the deck is an array of
  non-negative integers, printed in decimal; a string is quoted, with the quote, the
  backslash and the control characters escaped. Strings are sequences of bytes (UTF-8).
  \<open>parse_deck_data\<close> is \<open>JSON.parse\<close> restricted to texts of this shape whose strings
  hold no escape sequence (on any other text it gives \<open>None\<close>).
\<close>


definition dq :: char where "dq = CHR 0x22"
definition backslash :: char where "backslash = CHR 0x5C"

definition digit_char :: "nat \<Rightarrow> char" where
  "digit_char d = char_of (48 + d)"

definition is_digit :: "char \<Rightarrow> bool" where
  "is_digit c \<longleftrightarrow> 48 \<le> (of_char c :: nat) \<and> (of_char c :: nat) \<le> 57"

function decimal :: "nat \<Rightarrow> string" where
  "decimal n = (if n < 10 then [digit_char n] else decimal (n div 10) @ [digit_char (n mod 10)])"
  by pat_completeness auto
termination
  by (relation "measure id") auto

declare decimal.simps [simp del]

fun json_elems :: "nat list \<Rightarrow> string" where
  "json_elems [] = []"
| "json_elems [x] = decimal x"
| "json_elems (x # y # ys) = decimal x @ '','' @ json_elems (y # ys)"

definition json_number_array :: "nat list \<Rightarrow> string" where
  "json_number_array xs = ''['' @ json_elems xs @ '']''"

definition hex_char :: "nat \<Rightarrow> char" where
  "hex_char d = (if d < 10 then char_of (48 + d) else char_of (87 + d))"

definition json_escape :: "char \<Rightarrow> string" where
  "json_escape c =
     (if c = dq then [backslash, dq]
      else if c = backslash then [backslash, backslash]
      else if (of_char c :: nat) = 8 then [backslash, CHR ''b'']
      else if (of_char c :: nat) = 9 then [backslash, CHR ''t'']
      else if (of_char c :: nat) = 10 then [backslash, CHR ''n'']
      else if (of_char c :: nat) = 12 then [backslash, CHR ''f'']
      else if (of_char c :: nat) = 13 then [backslash, CHR ''r'']
      else if (of_char c :: nat) < 32 then
        backslash # ''u00'' @ [hex_char (of_char c div 16), hex_char (of_char c mod 16)]
      else [c])"

definition json_string :: "string \<Rightarrow> string" where
  "json_string s = dq # concat (map json_escape s) @ [dq]"

definition json_key :: "string \<Rightarrow> string" where
  "json_key k = dq # k @ [dq, CHR '':'']"

definition stringify_deck_data :: "nat list \<Rightarrow> string \<Rightarrow> string \<Rightarrow> string" where
  "stringify_deck_data deck salt commitment =
     ''{'' @ json_key ''deck'' @ json_number_array deck
      @ '','' @ json_key ''salt'' @ json_string salt
      @ '','' @ json_key ''commitment'' @ json_string commitment @ ''}''"

definition plain_char :: "char \<Rightarrow> bool" where
  "plain_char c \<longleftrightarrow> c \<noteq> dq \<and> c \<noteq> backslash \<and> 32 \<le> (of_char c :: nat)"

definition parse_number :: "string \<Rightarrow> (nat \<times> string) option" where
  "parse_number s =
     (if takeWhile is_digit s = [] then None
      else Some (foldl (\<lambda>a c. 10 * a + (of_char c - 48)) 0 (takeWhile is_digit s),
                 dropWhile is_digit s))"

function parse_elems :: "string \<Rightarrow> (nat list \<times> string) option" where
  "parse_elems s =
     (case parse_number s of
        None \<Rightarrow> None
      | Some (n, r) \<Rightarrow>
          (case r of
             [] \<Rightarrow> None
           | c # r' \<Rightarrow>
               if c = CHR '','' then
                 (case parse_elems r' of None \<Rightarrow> None | Some (ns, r'') \<Rightarrow> Some (n # ns, r''))
               else if c = CHR '']'' then Some ([n], r')
               else None))"
  by pat_completeness auto
termination
proof (relation "measure length")
  show "wf (measure length)" by simp
next
  fix s :: string and x2 x y r c r'
  assume "parse_number s = Some x2" "(x, y) = x2" "y = c # r'"
  then have "dropWhile is_digit s = c # r'"
    by (auto simp: parse_number_def split: if_splits)
  moreover have "length (dropWhile is_digit s) \<le> length s"
    by (rule length_dropWhile_le)
  ultimately show "(r', s) \<in> measure length" by simp
qed

declare parse_elems.simps [simp del]

definition parse_array :: "string \<Rightarrow> (nat list \<times> string) option" where
  "parse_array s =
     (case s of
        [] \<Rightarrow> None
      | c # r \<Rightarrow>
          if c \<noteq> CHR ''['' then None
          else (case r of
                  [] \<Rightarrow> None
                | c' # r' \<Rightarrow> if c' = CHR '']'' then Some ([], r') else parse_elems r))"

definition parse_string :: "string \<Rightarrow> (string \<times> string) option" where
  "parse_string s =
     (case s of
        [] \<Rightarrow> None
      | c # r \<Rightarrow>
          if c \<noteq> dq then None
          else (case dropWhile plain_char r of
                  [] \<Rightarrow> None
                | c' # r' \<Rightarrow> if c' = dq then Some (takeWhile plain_char r, r') else None))"

definition strip_prefix :: "string \<Rightarrow> string \<Rightarrow> string option" where
  "strip_prefix p s = (if take (length p) s = p then Some (drop (length p) s) else None)"

definition parse_deck_data :: "string \<Rightarrow> (nat list \<times> string \<times> string) option" where
  "parse_deck_data s =
     (case strip_prefix (''{'' @ json_key ''deck'') s of None \<Rightarrow> None | Some s1 \<Rightarrow>
      case parse_array s1 of None \<Rightarrow> None | Some (deck, s2) \<Rightarrow>
      case strip_prefix ('','' @ json_key ''salt'') s2 of None \<Rightarrow> None | Some s3 \<Rightarrow>
      case parse_string s3 of None \<Rightarrow> None | Some (salt, s4) \<Rightarrow>
      case strip_prefix ('','' @ json_key ''commitment'') s4 of None \<Rightarrow> None | Some s5 \<Rightarrow>
      case parse_string s5 of None \<Rightarrow> None | Some (commitment, s6) \<Rightarrow>
      if s6 = ''}'' then Some (deck, salt, commitment) else None)"



subsection \<open>handleCreateGame and handleImportAndStart\<close>

text \<open>
  \<open>handleCreateGame\<close> from the point where \<open>createCommittedDeck()\<close> has returned
  \<open>{deck, salt, commitment}\<close>: the arguments it passes to \<open>prepareStartGame\<close> (what the
  authority will receive) and the deck data it exports for player 2. The points are the
  results of \<open>parsePoints\<close> (\<open>None\<close> for null). \<open>handleImportAndStart_deck\<close> is what
  player 2's client reads back from the imported text.
\<close>

definition hex_digit :: "char \<Rightarrow> nat option" where
  "hex_digit c =
     (if 48 \<le> (of_char c :: nat) \<and> (of_char c :: nat) \<le> 57 then Some (of_char c - 48)
      else if 97 \<le> (of_char c :: nat) \<and> (of_char c :: nat) \<le> 102 then Some (of_char c - 87)
      else if 65 \<le> (of_char c :: nat) \<and> (of_char c :: nat) \<le> 70 then Some (of_char c - 55)
      else None)"

fun hex_decode :: "string \<Rightarrow> Bytes" where
  "hex_decode (a # b # rest) =
     (case hex_digit a of
        None \<Rightarrow> []
      | Some x \<Rightarrow>
          (case hex_digit b of
             None \<Rightarrow> []
           | Some y \<Rightarrow> of_nat (16 * x + y) # hex_decode rest))"
| "hex_decode rest = []"

definition hexToBuffer :: "string \<Rightarrow> Bytes" where
  "hexToBuffer hex = hex_decode (if take 2 hex = ''0x'' then drop 2 hex else hex)"

record StartGameRequest =
  req_session_id :: u32
  req_player1 :: Address
  req_player2 :: Address
  req_player1_points :: int
  req_player2_points :: int
  req_deck_commitment :: Bytes

record CreateGameOutput =
  prepared :: StartGameRequest
  exportedDeckData :: string

definition handleCreateGame ::
    "nat list \<Rightarrow> string \<Rightarrow> string \<Rightarrow> u32 \<Rightarrow> Address \<Rightarrow> Address \<Rightarrow> int option \<Rightarrow> int option
      \<Rightarrow> string + CreateGameOutput" where
  "handleCreateGame newDeck newSalt newCommitment sessionId player1Address player2Address p1Points p2Points =
     (if p1Points = None \<or> p1Points = Some 0 \<or> p2Points = None \<or> p2Points = Some 0
      then Inl ''Invalid points amount''
      else if player2Address = [] then Inl ''Player 2 address is required''
      else
        Inr \<lparr> prepared =
                \<lparr> req_session_id = sessionId, req_player1 = player1Address,
                  req_player2 = player2Address, req_player1_points = the p1Points,
                  req_player2_points = the p2Points,
                  req_deck_commitment = hexToBuffer newCommitment \<rparr>,
              exportedDeckData = stringify_deck_data newDeck newSalt newCommitment \<rparr>)"

definition handleImportAndStart_deck :: "string \<Rightarrow> string + (nat list \<times> string \<times> string)" where
  "handleImportAndStart_deck importDeckData =
     (if importDeckData = []
      then Inl ''Deck data is required. Player 1 should share this with the auth entry.''
      else (case parse_deck_data importDeckData of
              None \<Rightarrow> Inl ''SyntaxError''
            | Some deckInfo \<Rightarrow> Inr deckInfo))"

definition commitment_hex :: string where
  "commitment_hex = ''16c3c2c6dea3e51ea76d698984029fa1da8a13e617053051766963d03b046dcd''"


section \<open>The two commitment functions of the client (deckUtils.ts, noirProofGen.ts)\<close>

subsection \<open>SHA-256, as \<open>crypto.subtle.digest\<close> computes it\<close>

unbundle bit_operations_syntax

text \<open>
  FIPS 180-4 on bytes: the padded message is cut into blocks of 64 bytes; \<open>schedule\<close>
  extends the 16 words of a block to 64 (newest word first), \<open>rounds\<close> runs the 64 rounds
  on the eight working variables, \<open>compress\<close> adds the result to the chaining value.
\<close>

definition sha256_K :: "u32 list" where
  "sha256_K =
    [0x428A2F98, 0x71374491, 0xB5C0FBCF, 0xE9B5DBA5,
     0x3956C25B, 0x59F111F1, 0x923F82A4, 0xAB1C5ED5,
     0xD807AA98, 0x12835B01, 0x243185BE, 0x550C7DC3,
     0x72BE5D74, 0x80DEB1FE, 0x9BDC06A7, 0xC19BF174,
     0xE49B69C1, 0xEFBE4786, 0x0FC19DC6, 0x240CA1CC,
     0x2DE92C6F, 0x4A7484AA, 0x5CB0A9DC, 0x76F988DA,
     0x983E5152, 0xA831C66D, 0xB00327C8, 0xBF597FC7,
     0xC6E00BF3, 0xD5A79147, 0x06CA6351, 0x14292967,
     0x27B70A85, 0x2E1B2138, 0x4D2C6DFC, 0x53380D13,
     0x650A7354, 0x766A0ABB, 0x81C2C92E, 0x92722C85,
     0xA2BFE8A1, 0xA81A664B, 0xC24B8B70, 0xC76C51A3,
     0xD192E819, 0xD6990624, 0xF40E3585, 0x106AA070,
     0x19A4C116, 0x1E376C08, 0x2748774C, 0x34B0BCB5,
     0x391C0CB3, 0x4ED8AA4A, 0x5B9CCA4F, 0x682E6FF3,
     0x748F82EE, 0x78A5636F, 0x84C87814, 0x8CC70208,
     0x90BEFFFA, 0xA4506CEB, 0xBEF9A3F7, 0xC67178F2]"

definition sha256_H0 :: "u32 list" where
  "sha256_H0 =
    [0x6A09E667, 0xBB67AE85, 0x3C6EF372, 0xA54FF53A,
     0x510E527F, 0x9B05688C, 0x1F83D9AB, 0x5BE0CD19]"

definition rotr :: "nat \<Rightarrow> u32 \<Rightarrow> u32" where
  "rotr n x = (drop_bit n x) OR (push_bit (32 - n) x)"

definition big_sigma0 :: "u32 \<Rightarrow> u32" where
  "big_sigma0 x = rotr 2 x XOR rotr 13 x XOR rotr 22 x"
definition big_sigma1 :: "u32 \<Rightarrow> u32" where
  "big_sigma1 x = rotr 6 x XOR rotr 11 x XOR rotr 25 x"
definition small_sigma0 :: "u32 \<Rightarrow> u32" where
  "small_sigma0 x = rotr 7 x XOR rotr 18 x XOR drop_bit 3 x"
definition small_sigma1 :: "u32 \<Rightarrow> u32" where
  "small_sigma1 x = rotr 17 x XOR rotr 19 x XOR drop_bit 10 x"
definition ch :: "u32 \<Rightarrow> u32 \<Rightarrow> u32 \<Rightarrow> u32" where
  "ch x y z = (x AND y) XOR (NOT x AND z)"
definition maj :: "u32 \<Rightarrow> u32 \<Rightarrow> u32 \<Rightarrow> u32" where
  "maj x y z = (x AND y) XOR (x AND z) XOR (y AND z)"

fun schedule :: "nat \<Rightarrow> u32 list \<Rightarrow> u32 list" where
  "schedule 0 ws = ws"
| "schedule (Suc n) ws =
     schedule n ((small_sigma1 (ws ! 1) + ws ! 6 + small_sigma0 (ws ! 14) + ws ! 15) # ws)"

fun rounds :: "u32 list \<Rightarrow> u32 list \<Rightarrow> u32 list \<Rightarrow> u32 list" where
  "rounds (k # ks) (w # ws) [a, b, c, d, e, f, g, h] =
     (let t1 = h + big_sigma1 e + ch e f g + k + w;
          t2 = big_sigma0 a + maj a b c
      in rounds ks ws [t1 + t2, a, b, c, d + t1, e, f, g])"
| "rounds ks ws st = st"

fun be32 :: "Bytes \<Rightarrow> u32 list" where
  "be32 (a # b # c # d # rest) =
     (push_bit 24 (ucast a) OR push_bit 16 (ucast b) OR push_bit 8 (ucast c) OR ucast d) # be32 rest"
| "be32 rest = []"

definition compress :: "u32 list \<Rightarrow> Bytes \<Rightarrow> u32 list" where
  "compress st block = map2 (+) st (rounds sha256_K (rev (schedule 48 (rev (be32 block)))) st)"

definition word_bytes :: "u32 \<Rightarrow> Bytes" where
  "word_bytes w = [ucast (drop_bit 24 w), ucast (drop_bit 16 w), ucast (drop_bit 8 w), ucast w]"

definition length_bytes :: "64 word \<Rightarrow> Bytes" where
  "length_bytes n = map (\<lambda>i. ucast (drop_bit (8 * (7 - i)) n)) [0 ..< 8]"

definition pad :: "Bytes \<Rightarrow> Bytes" where
  "pad msg = msg @ [0x80] @ replicate ((119 - length msg mod 64) mod 64) 0
                 @ length_bytes (8 * of_nat (length msg))"

fun blocks :: "nat \<Rightarrow> Bytes \<Rightarrow> Bytes list" where
  "blocks 0 bs = []"
| "blocks (Suc n) bs = take 64 bs # blocks n (drop 64 bs)"

definition sha256 :: "Bytes \<Rightarrow> Bytes" where
  "sha256 msg =
     (let p = pad msg
      in concat (map word_bytes (foldl compress sha256_H0 (blocks (length p div 64) p))))"



subsection \<open>generateCommitment and computePedersenCommitment\<close>

text \<open>
  \<open>generateCommitment\<close> hashes the UTF-8 bytes of \<open>JSON.stringify({deck, salt})\<close> with
  SHA-256 and prints the digest as 64 lower-case hexadecimal digits.
  \<open>computePedersenCommitment\<close> executes the Noir circuit and takes the third public input
  of the proof; the circuit and the Barretenberg backend are the parameter \<open>backend\<close>,
  from the circuit's inputs to the public inputs (\<open>None\<close> when execution or proving
  throws). \<open>salt_field\<close> is the salt that \<open>generateNoirProof\<close> hands to it. A public input
  is a BN254 field element: a hexadecimal numeral below the modulus.
\<close>

definition utf8_encode :: "string \<Rightarrow> Bytes" where
  "utf8_encode s = map of_char s"

definition byte_hex :: "8 word \<Rightarrow> string" where
  "byte_hex b = [hex_char (unat (drop_bit 4 b)), hex_char (unat (b AND 15))]"

definition stringify_deck_salt :: "nat list \<Rightarrow> string \<Rightarrow> string" where
  "stringify_deck_salt deck salt =
     ''{'' @ json_key ''deck'' @ json_number_array deck
      @ '','' @ json_key ''salt'' @ json_string salt @ ''}''"

definition generateCommitment :: "nat list \<Rightarrow> string \<Rightarrow> string" where
  "generateCommitment deck salt =
     concat (map byte_hex (sha256 (utf8_encode (stringify_deck_salt deck salt))))"

record CircuitInputs =
  ci_deck :: "string list"
  ci_salt :: string
  ci_position :: nat
  ci_revealed_value :: string
  ci_commitment :: string

definition strip_0x :: "string \<Rightarrow> string" where
  "strip_0x s = (if take 2 s = ''0x'' then drop 2 s else s)"

definition padStart64 :: "string \<Rightarrow> string" where
  "padStart64 s = replicate (64 - length s) (CHR ''0'') @ s"

definition computePedersenCommitment ::
    "(CircuitInputs \<Rightarrow> string list option) \<Rightarrow> nat list \<Rightarrow> string \<Rightarrow> string + string" where
  "computePedersenCommitment backend deck saltField =
     (case deck of
        [] \<Rightarrow> Inl ''TypeError''
      | d0 # ds \<Rightarrow>
          (case backend \<lparr> ci_deck = map decimal deck, ci_salt = saltField, ci_position = 0,
                           ci_revealed_value = decimal d0, ci_commitment = ''0'' \<rparr> of
             None \<Rightarrow> Inl ''circuit execution failed''
           | Some publicInputs \<Rightarrow>
               if 3 \<le> length publicInputs
               then Inr (padStart64 (strip_0x (publicInputs ! 2)))
               else Inl ''Failed to extract commitment from public inputs''))"

definition salt_field :: "string \<Rightarrow> string" where
  "salt_field salt = ''0x'' @ concat (map byte_hex (take 31 (sha256 (utf8_encode salt))))"

definition bn254_modulus :: int where
  "bn254_modulus = 21888242871839275222246405745257275088548364400416034343698204186575808495617"

definition hex_value :: "string \<Rightarrow> int" where
  "hex_value s = foldl (\<lambda>a c. 16 * a + (case hex_digit c of None \<Rightarrow> 0 | Some d \<Rightarrow> int d)) 0 s"

definition is_field_element :: "string \<Rightarrow> bool" where
  "is_field_element f \<longleftrightarrow> hex_value (strip_0x f) < bn254_modulus"

definition published_digest :: string where
  "published_digest = ''c7771e970b66bda9f2f754237caf63a81d302eab5363049f4d9e2d1609072122''"

definition backend_fixed :: "CircuitInputs \<Rightarrow> string list option" where
  "backend_fixed inputs = Some [''0x00'', ''0x00'', ''0x2a'']"


section \<open>Properties of the contract\<close>

lemma add_one_Inr: "add_one x = Inr y \<Longrightarrow> unat y = unat x + 1"
proof -
  assume a: "add_one x = Inr y"
  then have ne: "x \<noteq> - 1" and y: "y = x + 1"
    by (auto simp: add_one_def split: if_splits)
  from ne have "1 + x \<noteq> 0"
    by (metis add.commute add_eq_0_iff)
  then have "unat (1 + x) = Suc (unat x)"
    by (rule unatSuc)
  then show ?thesis
    unfolding y by (simp add: add.commute)
qed

lemma add_one_Inr_iff: "add_one x = Inr y \<longleftrightarrow> x \<noteq> - 1 \<and> y = x + 1"
  by (auto simp: add_one_def)

lemma flip_card_with_abort_env:
  "flip_card_with v env caller sid pos rv zkp pis = (Inl e, env') \<Longrightarrow> env' = env"
  by (auto simp: flip_card_with_def split: option.splits if_splits sum.splits)

lemma flip_card_with_accepted:
  assumes "flip_card_with v env caller sid pos rv zkp pis = (Inr u, env')"
  shows "\<exists>game game1. games env sid = Some game \<and> is_active game \<and> caller = current_turn game
           \<and> pos < 16 \<and> vec_get (cards game) pos = Some FaceDown
           \<and> v zkp pis (deck_commitment game) = Inr ()
           \<and> game_logic game pos rv = Inr game1
           \<and> (if pairs_found game1 = 8
               then \<exists>hub. game_hub_address env = Some hub
                      \<and> env' = env \<lparr> hub_calls := hub_calls env @ [HubEndGame hub sid (score2 game1 < score1 game1)],
                                     games := (games env)(sid \<mapsto> game1 \<lparr> is_active := False \<rparr>) \<rparr>
               else env' = env \<lparr> games := (games env)(sid \<mapsto> game1) \<rparr>)"
proof -
  have fd: "\<And>c. c \<noteq> Matched \<Longrightarrow> c = FaceDown"
    by (metis CardState.exhaust)
  show ?thesis
    using assms
    by (auto simp: flip_card_with_def split: option.splits if_splits sum.splits dest: fd)
qed

lemma game_logic_first:
  "flip_one g = None \<Longrightarrow>
   game_logic g pos rv = Inr (g \<lparr> flip_one := Some pos, flip_one_value := Some rv \<rparr>)"
  by (simp add: game_logic_def)

lemma game_logic_nomatch:
  "flip_one g = Some posA \<Longrightarrow> flip_one_value g = Some valA \<Longrightarrow> \<not> (valA = rv \<and> posA \<noteq> pos) \<Longrightarrow>
   game_logic g pos rv =
     Inr (g \<lparr> current_turn := other_player g, flip_one := None, flip_one_value := None \<rparr>)"
  by (auto simp: game_logic_def)

lemma game_logic_match:
  assumes "flip_one g = Some posA" "flip_one_value g = Some valA" "valA = rv" "posA \<noteq> pos"
    and "game_logic g pos rv = Inr g1"
  shows "unat posA < length (cards g) \<and> unat pos < length (cards g)
       \<and> pairs_found g \<noteq> - 1 
       \<and> (if current_turn g = player1 g
            then score1 g \<noteq> - 1 \<and>
                 g1 = g \<lparr> cards := (cards g)[unat posA := Matched, unat pos := Matched],
                          score1 := score1 g + 1, flip_one := None, flip_one_value := None,
                          pairs_found := pairs_found g + 1 \<rparr>
            else score2 g \<noteq> - 1 \<and>
                 g1 = g \<lparr> cards := (cards g)[unat posA := Matched, unat pos := Matched],
                          score2 := score2 g + 1, flip_one := None, flip_one_value := None,
                          pairs_found := pairs_found g + 1 \<rparr>)"
  using assms
  by (auto simp: game_logic_def vec_set_def add_one_def split: if_splits sum.splits)

lemma unat_inc: "(x :: u32) \<noteq> - 1 \<Longrightarrow> unat (x + 1) = unat x + 1"
  using add_one_Inr[of x "x + 1"] by (simp add: add_one_def)

lemma start_game_created:
  assumes "start_game env addr signers sid p1 p2 pts1 pts2 c = (Inr r, env')"
  shows "r = sid \<and> p1 \<in> set signers \<and> p2 \<in> set signers \<and>
         games env' sid = Some \<lparr> session_id = sid, player1 = p1, player2 = p2,
                     deck_commitment = c, cards = replicate 16 FaceDown,
                     score1 = 0, score2 = 0, current_turn = p1,
                     flip_one = None, flip_one_value = None,
                     pairs_found = 0, is_active = True \<rparr>"
  using assms
  by (auto simp: start_game_def Let_def split: if_splits option.splits)

lemma flip_card_accepted_game:
  assumes "flip_card_with v env caller sid pos rv zkp pis = (Inr u, env')"
    and "games env sid = Some g"
  shows "\<exists>g1. is_active g \<and> caller = current_turn g \<and> pos < 16
           \<and> vec_get (cards g) pos = Some FaceDown
           \<and> v zkp pis (deck_commitment g) = Inr ()
           \<and> game_logic g pos rv = Inr g1
           \<and> games env' sid = Some (if pairs_found g1 = 8 then g1 \<lparr> is_active := False \<rparr> else g1)
           \<and> hub_calls env' = hub_calls env @
                 (if pairs_found g1 = 8
                  then [HubEndGame (the (game_hub_address env)) sid (score2 g1 < score1 g1)] else [])"
proof -
  from flip_card_with_accepted[OF assms(1)] assms(2)
  obtain g1 where a: "is_active g" "caller = current_turn g" "pos < 16"
      "vec_get (cards g) pos = Some FaceDown" "v zkp pis (deck_commitment g) = Inr ()"
      "game_logic g pos rv = Inr g1"
    and b: "if pairs_found g1 = 8
               then \<exists>hub. game_hub_address env = Some hub
                      \<and> env' = env \<lparr> hub_calls := hub_calls env @ [HubEndGame hub sid (score2 g1 < score1 g1)],
                                     games := (games env)(sid \<mapsto> g1 \<lparr> is_active := False \<rparr>) \<rparr>
               else env' = env \<lparr> games := (games env)(sid \<mapsto> g1) \<rparr>"
    by auto
  show ?thesis
  proof (cases "pairs_found g1 = 8")
    case True
    with b obtain hub where "game_hub_address env = Some hub"
      "env' = env \<lparr> hub_calls := hub_calls env @ [HubEndGame hub sid (score2 g1 < score1 g1)],
                                     games := (games env)(sid \<mapsto> g1 \<lparr> is_active := False \<rparr>) \<rparr>"
      by auto
    with a True show ?thesis by auto
  next
    case False
    with b have "env' = env \<lparr> games := (games env)(sid \<mapsto> g1) \<rparr>" by simp
    with a False show ?thesis by auto
  qed
qed

lemma game_logic_inv:
  assumes "session_inv g" "is_active g" "game_logic g pos rv = Inr g1"
  shows "session_inv (if pairs_found g1 = 8 then g1 \<lparr> is_active := False \<rparr> else g1)"
proof (cases "flip_one g")
  case None
  with assms show ?thesis
    by (auto simp: game_logic_first session_inv_def)
next
  case (Some posA)
  with assms(1) obtain valA where v: "flip_one_value g = Some valA"
    by (auto simp: session_inv_def)
  show ?thesis
  proof (cases "valA = rv \<and> posA \<noteq> pos")
    case False
    from game_logic_nomatch[OF Some v False] assms show ?thesis
      by (auto simp: session_inv_def other_player_def)
  next
    case True
    from assms(1,2) have lt: "unat (pairs_found g) < 8"
      by (auto simp: session_inv_def word_eq_iff_unsigned[where ?'a=nat])
    from True game_logic_match[OF Some v _ _ assms(3)]
    have m: "pairs_found g \<noteq> - 1"
      "(if current_turn g = player1 g
            then score1 g \<noteq> - 1 \<and>
                 g1 = g \<lparr> cards := (cards g)[unat posA := Matched, unat pos := Matched],
                          score1 := score1 g + 1, flip_one := None, flip_one_value := None,
                          pairs_found := pairs_found g + 1 \<rparr>
            else score2 g \<noteq> - 1 \<and>
                 g1 = g \<lparr> cards := (cards g)[unat posA := Matched, unat pos := Matched],
                          score2 := score2 g + 1, flip_one := None, flip_one_value := None,
                          pairs_found := pairs_found g + 1 \<rparr>)"
      by auto
    have pf: "unat (pairs_found g + 1) = unat (pairs_found g) + 1"
      using m(1) by (rule unat_inc)
    have eight: "pairs_found g1 = 8 \<longleftrightarrow> unat (pairs_found g1) = 8"
      by (simp add: word_eq_iff_unsigned[where ?'a=nat])
    show ?thesis
    proof (cases "current_turn g = player1 g")
      case True
      with m have g1: "g1 = g \<lparr> cards := (cards g)[unat posA := Matched, unat pos := Matched],
                          score1 := score1 g + 1, flip_one := None, flip_one_value := None,
                          pairs_found := pairs_found g + 1 \<rparr>" and s: "score1 g \<noteq> - 1" by auto
      from assms(1) lt pf unat_inc[OF s] eight show ?thesis
        unfolding g1 by (auto simp: session_inv_def)
    next
      case False
      with m have g1: "g1 = g \<lparr> cards := (cards g)[unat posA := Matched, unat pos := Matched],
                          score2 := score2 g + 1, flip_one := None, flip_one_value := None,
                          pairs_found := pairs_found g + 1 \<rparr>" and s: "score2 g \<noteq> - 1" by auto
      from assms(1) lt pf unat_inc[OF s] eight show ?thesis
        unfolding g1 by (auto simp: session_inv_def)
    qed
  qed
qed

lemma reachable_inv: "reachable g \<Longrightarrow> session_inv g"
proof (induction rule: reachable.induct)
  case (created env addr signers sid p1 p2 pts1 pts2 c r env' g)
  from start_game_created[OF created(1)] created(2) show ?case
    by (auto simp: session_inv_def)
next
  case (flipped g env sid caller pos rv zkp pis env' g')
  from flip_card_accepted_game[OF flipped(3)[unfolded flip_card_def] flipped(2)] flipped(4)
  obtain g1 where "is_active g" "game_logic g pos rv = Inr g1"
     "g' = (if pairs_found g1 = 8 then g1 \<lparr> is_active := False \<rparr> else g1)"
    by auto
  with game_logic_inv[OF flipped.IH] show ?case by simp
qed

subsection \<open>Sessions that are reachable\<close>

lemma reachable_run_flips:
  "reachable g \<Longrightarrow> games env sid = Some g \<Longrightarrow>
   games (run_flips env sid fs) sid = Some g' \<Longrightarrow> reachable g'"
proof (induction fs arbitrary: env g)
  case Nil
  then show ?case by simp
next
  case (Cons f fs)
  obtain caller pos rv where f: "f = (caller, pos, rv)"
    by (cases f) auto
  obtain res env1 where r: "flip_card env caller sid pos rv proof_128 [] = (res, env1)"
    by (cases "flip_card env caller sid pos rv proof_128 []") auto
  from Cons.prems(3) have run: "games (run_flips env1 sid fs) sid = Some g'"
    by (simp add: f r)
  show ?case
  proof (cases res)
    case (Inl e)
    with r have "env1 = env"
      by (auto simp: flip_card_def dest: flip_card_with_abort_env)
    with Cons.IH[OF Cons.prems(1) _ run] Cons.prems(2) show ?thesis by simp
  next
    case (Inr u)
    with r have acc: "flip_card env caller sid pos rv proof_128 [] = (Inr (), env1)" by simp
    from flip_card_accepted_game[OF acc[unfolded flip_card_def] Cons.prems(2)]
    obtain g2 where g2: "games env1 sid = Some g2" by auto
    from flipped[OF Cons.prems(1) Cons.prems(2) acc g2] have "reachable g2" .
    from Cons.IH[OF this g2 run] show ?thesis .
  qed
qed

lemma reachable_game_new: "reachable game_new"
proof -
  have 1: "fst (start_game env_empty contract_id [alice, bob] 1 alice bob 100 100 commitment_A) = Inr 1"
    by code_simp
  have 2: "games (snd (start_game env_empty contract_id [alice, bob] 1 alice bob 100 100 commitment_A)) 1
             = Some game_new"
    by code_simp
  from 1 have "start_game env_empty contract_id [alice, bob] 1 alice bob 100 100 commitment_A
      = (Inr 1, snd (start_game env_empty contract_id [alice, bob] 1 alice bob 100 100 commitment_A))"
    by (metis prod.collapse)
  from created[OF this 2] show ?thesis .
qed

lemma env_of_game: "games (env_of g) 1 = Some g"
  by (simp add: env_of_def)

lemma reachable_game_first: "reachable game_first"
proof -
  have "games (run_flips (env_of game_new) 1 [(alice, 1, 1)]) 1 = Some game_first"
    by code_simp
  from reachable_run_flips[OF reachable_game_new env_of_game this] show ?thesis .
qed

lemma reachable_game_matched: "reachable game_matched"
proof -
  have "games (run_flips (env_of game_new) 1 [(alice, 1, 1), (alice, 9, 1)]) 1 = Some game_matched"
    by code_simp
  from reachable_run_flips[OF reachable_game_new env_of_game this] show ?thesis .
qed

lemma reachable_game_tie_last: "reachable game_tie_last"
proof -
  have "games (run_flips (env_of game_new) 1 tie_play) 1 = Some game_tie_last"
    by code_simp
  from reachable_run_flips[OF reachable_game_new env_of_game this] show ?thesis .
qed

lemma accepted_pair: "fst r = Inr () \<Longrightarrow> r = (Inr (), snd r)"
  by (metis prod.collapse)


subsection \<open>Score and pairs\<close>

text \<open>
  C2 (amended). In every state reachable from session creation by accepted flips, the two
  scores add up to the number of pairs found (not to twice that number): every match adds one
  to \<open>pairs_found\<close> and one to the score of the player whose turn it is. No counter
  exceeds 8, so none of the additions overflows.
\<close>

theorem score_pairs_relation:
  "reachable g \<Longrightarrow>
   unat (score1 g) + unat (score2 g) = unat (pairs_found g) \<and> unat (pairs_found g) \<le> 8"
  by (drule reachable_inv) (simp add: session_inv_def)

text \<open>After one match: one pair found, score 1 to 0.\<close>

theorem score_pairs_relation_witness:
  "reachable game_matched \<and>
   unat (score1 game_matched) + unat (score2 game_matched) = unat (pairs_found game_matched) \<and>
   unat (pairs_found game_matched) \<le> 8 \<and> pairs_found game_matched = 1"
  using score_pairs_relation[OF reachable_game_matched] reachable_game_matched
  by (simp add: game_matched_def)

text \<open>
  C2 as stated fails in the state reached by creating a session and matching positions 1 and 9:
  the scores add up to 1, twice the pairs found is 2.
\<close>

theorem score_pairs_double_counterexample:
  "reachable game_matched \<and>
   score1 game_matched + score2 game_matched \<noteq> 2 * pairs_found game_matched \<and>
   unat (score1 game_matched) + unat (score2 game_matched) \<noteq> 2 * unat (pairs_found game_matched)"
  using reachable_game_matched by (simp add: game_matched_def game_new_def)

subsection \<open>The second flip of a turn\<close>

text \<open>
  C3. An accepted flip that finds a pending flip (posA, valA): when valA equals the revealed
  value and posA differs from the position, both positions become \<open>Matched\<close>,
  \<open>pairs_found\<close> and the score of the caller (the player whose turn it is) grow by one
  and the turn stays; otherwise cards, scores and \<open>pairs_found\<close> stay and the turn goes to
  the other player. In both cases the pending flip is cleared. It holds for every verifier.
\<close>

theorem second_flip_resolution:
  assumes "games env sid = Some g"
    and "flip_one g = Some posA" and "flip_one_value g = Some valA"
    and "flip_card_with v env caller sid pos rv zkp pis = (Inr (), env')"
  shows "\<exists>g'. games env' sid = Some g'
      \<and> flip_one g' = None \<and> flip_one_value g' = None
      \<and> (if valA = rv \<and> posA \<noteq> pos
         then unat posA < length (cards g) \<and> unat pos < length (cards g)
            \<and> cards g' = (cards g)[unat posA := Matched, unat pos := Matched]
            \<and> cards g' ! unat posA = Matched \<and> cards g' ! unat pos = Matched
            \<and> unat (pairs_found g') = unat (pairs_found g) + 1
            \<and> (if caller = player1 g
               then unat (score1 g') = unat (score1 g) + 1 \<and> score2 g' = score2 g
               else unat (score2 g') = unat (score2 g) + 1 \<and> score1 g' = score1 g)
            \<and> current_turn g' = current_turn g
         else cards g' = cards g \<and> score1 g' = score1 g \<and> score2 g' = score2 g
            \<and> pairs_found g' = pairs_found g
            \<and> current_turn g' = (if caller = player1 g then player2 g else player1 g))"
proof -
  from flip_card_accepted_game[OF assms(4) assms(1)]
  obtain g1 where a: "caller = current_turn g" "game_logic g pos rv = Inr g1"
    and g': "games env' sid = Some (if pairs_found g1 = 8 then g1 \<lparr> is_active := False \<rparr> else g1)"
    by auto
  let ?g' = "if pairs_found g1 = 8 then g1 \<lparr> is_active := False \<rparr> else g1"
  show ?thesis
  proof (cases "valA = rv \<and> posA \<noteq> pos")
    case False
    from game_logic_nomatch[OF assms(2,3) False] a(2)
    have "g1 = g \<lparr> current_turn := other_player g, flip_one := None, flip_one_value := None \<rparr>"
      by simp
    with False a(1) g' show ?thesis
      by (auto simp: other_player_def)
  next
    case True
    from True game_logic_match[OF assms(2,3) _ _ a(2)]
    have b: "unat posA < length (cards g)" "unat pos < length (cards g)" "pairs_found g \<noteq> - 1"
      and m: "(if current_turn g = player1 g
            then score1 g \<noteq> - 1 \<and>
                 g1 = g \<lparr> cards := (cards g)[unat posA := Matched, unat pos := Matched],
                          score1 := score1 g + 1, flip_one := None, flip_one_value := None,
                          pairs_found := pairs_found g + 1 \<rparr>
            else score2 g \<noteq> - 1 \<and>
                 g1 = g \<lparr> cards := (cards g)[unat posA := Matched, unat pos := Matched],
                          score2 := score2 g + 1, flip_one := None, flip_one_value := None,
                          pairs_found := pairs_found g + 1 \<rparr>)"
      by auto
    from True have ne: "unat posA \<noteq> unat pos"
      by (simp add: word_eq_iff_unsigned[where ?'a=nat])
    have nth: "(cards g)[unat posA := Matched, unat pos := Matched] ! unat posA = Matched"
      "(cards g)[unat posA := Matched, unat pos := Matched] ! unat pos = Matched"
      using b(1,2) ne by (simp_all add: nth_list_update)
    show ?thesis
    proof (cases "current_turn g = player1 g")
      case p1: True
      with m have g1: "g1 = g \<lparr> cards := (cards g)[unat posA := Matched, unat pos := Matched],
                          score1 := score1 g + 1, flip_one := None, flip_one_value := None,
                          pairs_found := pairs_found g + 1 \<rparr>" and s: "score1 g \<noteq> - 1" by auto
      from True p1 a(1) b nth unat_inc[OF s] unat_inc[OF b(3)] g' show ?thesis
        unfolding g1 by auto
    next
      case p2: False
      with m have g1: "g1 = g \<lparr> cards := (cards g)[unat posA := Matched, unat pos := Matched],
                          score2 := score2 g + 1, flip_one := None, flip_one_value := None,
                          pairs_found := pairs_found g + 1 \<rparr>" and s: "score2 g \<noteq> - 1" by auto
      from True p2 a(1) b nth unat_inc[OF s] unat_inc[OF b(3)] g' show ?thesis
        unfolding g1 by auto
    qed
  qed
qed

text \<open>
  With position 1 (value 1) pending: flipping position 9 (value 1) is a match, flipping
  position 2 (value 2) is not and hands the turn to bob.
\<close>

theorem second_flip_resolution_witness:
  "(\<exists>g'. games (snd (flip_card_with verify_card_reveal_proof (env_of game_first) alice 1 9 1 proof_128 [])) 1 = Some g'
      \<and> flip_one g' = None \<and> flip_one_value g' = None
      \<and> cards g' ! 1 = Matched \<and> cards g' ! 9 = Matched
      \<and> unat (pairs_found g') = 1 \<and> unat (score1 g') = 1 \<and> score2 g' = 0
      \<and> current_turn g' = alice)
   \<and> (\<exists>g'. games (snd (flip_card_with verify_card_reveal_proof (env_of game_first) alice 1 2 2 proof_128 [])) 1 = Some g'
      \<and> flip_one g' = None \<and> flip_one_value g' = None
      \<and> cards g' = replicate 16 FaceDown \<and> pairs_found g' = 0 \<and> score1 g' = 0 \<and> score2 g' = 0
      \<and> current_turn g' = bob)"
proof -
  have f1: "flip_one game_first = Some 1" and f2: "flip_one_value game_first = Some 1"
    by (simp_all add: game_first_def)
  have a1: "fst (flip_card_with verify_card_reveal_proof (env_of game_first) alice 1 9 1 proof_128 []) = Inr ()"
    by code_simp
  have a2: "fst (flip_card_with verify_card_reveal_proof (env_of game_first) alice 1 2 2 proof_128 []) = Inr ()"
    by code_simp
  have al: "alice = player1 game_first" "player2 game_first = bob" "current_turn game_first = alice"
    "cards game_first = replicate 16 FaceDown" "pairs_found game_first = 0"
    "score1 game_first = 0" "score2 game_first = 0"
    by (simp_all add: game_first_def game_new_def)
  from second_flip_resolution[OF env_of_game f1 f2 accepted_pair[OF a1]]
  have m: "\<exists>g'. games (snd (flip_card_with verify_card_reveal_proof (env_of game_first) alice 1 9 1 proof_128 [])) 1 = Some g'
      \<and> flip_one g' = None \<and> flip_one_value g' = None
      \<and> cards g' ! 1 = Matched \<and> cards g' ! 9 = Matched
      \<and> unat (pairs_found g') = 1 \<and> unat (score1 g') = 1 \<and> score2 g' = 0
      \<and> current_turn g' = alice"
    using al by auto
  from second_flip_resolution[OF env_of_game f1 f2 accepted_pair[OF a2]]
  have n: "\<exists>g'. games (snd (flip_card_with verify_card_reveal_proof (env_of game_first) alice 1 2 2 proof_128 [])) 1 = Some g'
      \<and> flip_one g' = None \<and> flip_one_value g' = None
      \<and> cards g' = replicate 16 FaceDown \<and> pairs_found g' = 0 \<and> score1 g' = 0 \<and> score2 g' = 0
      \<and> current_turn g' = bob"
    using al by auto
  from m n show ?thesis by blast
qed

subsection \<open>Rejected flips\<close>

text \<open>
  C4. The checks of \<open>flip_card\<close>, in the order of the source: a session that is not active
  gives \<open>GameNotActive\<close>, a caller other than \<open>current_turn\<close> gives \<open>NotYourTurn\<close>,
  a position of 16 or more gives \<open>InvalidPosition\<close>, a matched card gives
  \<open>CardAlreadyMatched\<close>, a verifier that rejects gives \<open>InvalidProof\<close>; and whenever
  the invocation aborts, with these or any other abort, the environment (the stored session
  and the calls made to the hub) is the one it started with.
\<close>

theorem flip_rejections:
  assumes "games env sid = Some g"
  shows "(\<not> is_active g \<longrightarrow>
            flip_card_with v env caller sid pos rv zkp pis = (Inl (ContractError GameNotActive), env))
       \<and> (is_active g \<and> caller \<noteq> current_turn g \<longrightarrow>
            flip_card_with v env caller sid pos rv zkp pis = (Inl (ContractError NotYourTurn), env))
       \<and> (is_active g \<and> caller = current_turn g \<and> 16 \<le> unat pos \<longrightarrow>
            flip_card_with v env caller sid pos rv zkp pis = (Inl (ContractError InvalidPosition), env))
       \<and> (is_active g \<and> caller = current_turn g \<and> unat pos < 16 \<and> unat pos < length (cards g)
            \<and> cards g ! unat pos = Matched \<longrightarrow>
            flip_card_with v env caller sid pos rv zkp pis = (Inl (ContractError CardAlreadyMatched), env))
       \<and> (is_active g \<and> caller = current_turn g \<and> unat pos < 16 \<and> unat pos < length (cards g)
            \<and> cards g ! unat pos = FaceDown
            \<and> v zkp pis (deck_commitment g) = Inl (ContractError InvalidProof) \<longrightarrow>
            flip_card_with v env caller sid pos rv zkp pis = (Inl (ContractError InvalidProof), env))
       \<and> (\<forall>e env'. flip_card_with v env caller sid pos rv zkp pis = (Inl e, env') \<longrightarrow> env' = env)"
proof -
  have le: "16 \<le> pos \<longleftrightarrow> 16 \<le> unat pos"
    by (simp add: word_le_nat_alt)
  have checks:
    "(\<not> is_active g \<longrightarrow>
            flip_card_with v env caller sid pos rv zkp pis = (Inl (ContractError GameNotActive), env))
       \<and> (is_active g \<and> caller \<noteq> current_turn g \<longrightarrow>
            flip_card_with v env caller sid pos rv zkp pis = (Inl (ContractError NotYourTurn), env))
       \<and> (is_active g \<and> caller = current_turn g \<and> 16 \<le> unat pos \<longrightarrow>
            flip_card_with v env caller sid pos rv zkp pis = (Inl (ContractError InvalidPosition), env))
       \<and> (is_active g \<and> caller = current_turn g \<and> unat pos < 16 \<and> unat pos < length (cards g)
            \<and> cards g ! unat pos = Matched \<longrightarrow>
            flip_card_with v env caller sid pos rv zkp pis = (Inl (ContractError CardAlreadyMatched), env))
       \<and> (is_active g \<and> caller = current_turn g \<and> unat pos < 16 \<and> unat pos < length (cards g)
            \<and> cards g ! unat pos = FaceDown
            \<and> v zkp pis (deck_commitment g) = Inl (ContractError InvalidProof) \<longrightarrow>
            flip_card_with v env caller sid pos rv zkp pis = (Inl (ContractError InvalidProof), env))"
    using assms by (simp add: flip_card_with_def vec_get_def le)
  have frame: "\<forall>e env'. flip_card_with v env caller sid pos rv zkp pis = (Inl e, env') \<longrightarrow> env' = env"
    using flip_card_with_abort_env by blast
  from checks frame show ?thesis by simp
qed

text \<open>
  One rejected invocation for each of the five errors; the last one plugs in the production
  verifier with a host function that rejects.
\<close>

theorem flip_rejections_witness:
  "flip_card_with verify_card_reveal_proof (env_of game_tie_final) bob 1 0 0 proof_128 []
      = (Inl (ContractError GameNotActive), env_of game_tie_final)
   \<and> flip_card_with verify_card_reveal_proof (env_of game_matched) bob 1 0 0 proof_128 []
      = (Inl (ContractError NotYourTurn), env_of game_matched)
   \<and> flip_card_with verify_card_reveal_proof (env_of game_matched) alice 1 16 0 proof_128 []
      = (Inl (ContractError InvalidPosition), env_of game_matched)
   \<and> flip_card_with verify_card_reveal_proof (env_of game_matched) alice 1 9 1 proof_128 []
      = (Inl (ContractError CardAlreadyMatched), env_of game_matched)
   \<and> flip_card_with (verify_card_reveal_proof_bn254 reject_all []) (env_of game_matched) alice 1 0 0 proof_128 []
      = (Inl (ContractError InvalidProof), env_of game_matched)"
proof -
  have 1: "\<not> is_active game_tie_final"
    by (simp add: game_tie_final_def)
  have 2: "is_active game_matched \<and> bob \<noteq> current_turn game_matched"
    by (simp add: game_matched_def game_new_def alice_def bob_def)
  have 3: "is_active game_matched \<and> alice = current_turn game_matched \<and> 16 \<le> unat (16 :: u32)"
    by (simp add: game_matched_def game_new_def)
  have 4: "is_active game_matched \<and> alice = current_turn game_matched \<and> unat (9 :: u32) < 16
       \<and> unat (9 :: u32) < length (cards game_matched) \<and> cards game_matched ! unat (9 :: u32) = Matched"
    by (simp add: game_matched_def game_new_def)
  have 5: "is_active game_matched \<and> alice = current_turn game_matched \<and> unat (0 :: u32) < 16
       \<and> unat (0 :: u32) < length (cards game_matched) \<and> cards game_matched ! unat (0 :: u32) = FaceDown
       \<and> verify_card_reveal_proof_bn254 reject_all [] proof_128 [] (deck_commitment game_matched)
            = Inl (ContractError InvalidProof)"
    by (simp add: game_matched_def game_new_def verify_card_reveal_proof_bn254_def reject_all_def)
  from flip_rejections[OF env_of_game, of game_tie_final verify_card_reveal_proof bob 0 0 proof_128 "[]"] 1
  have r1: "flip_card_with verify_card_reveal_proof (env_of game_tie_final) bob 1 0 0 proof_128 []
      = (Inl (ContractError GameNotActive), env_of game_tie_final)" by blast
  from flip_rejections[OF env_of_game, of game_matched verify_card_reveal_proof bob 0 0 proof_128 "[]"] 2
  have r2: "flip_card_with verify_card_reveal_proof (env_of game_matched) bob 1 0 0 proof_128 []
      = (Inl (ContractError NotYourTurn), env_of game_matched)" by blast
  from flip_rejections[OF env_of_game, of game_matched verify_card_reveal_proof alice 16 0 proof_128 "[]"] 3
  have r3: "flip_card_with verify_card_reveal_proof (env_of game_matched) alice 1 16 0 proof_128 []
      = (Inl (ContractError InvalidPosition), env_of game_matched)" by blast
  from flip_rejections[OF env_of_game, of game_matched verify_card_reveal_proof alice 9 1 proof_128 "[]"] 4
  have r4: "flip_card_with verify_card_reveal_proof (env_of game_matched) alice 1 9 1 proof_128 []
      = (Inl (ContractError CardAlreadyMatched), env_of game_matched)" by blast
  from flip_rejections[OF env_of_game, of game_matched "verify_card_reveal_proof_bn254 reject_all []" alice 0 0 proof_128 "[]"] 5
  have r5: "flip_card_with (verify_card_reveal_proof_bn254 reject_all []) (env_of game_matched) alice 1 0 0 proof_128 []
      = (Inl (ContractError InvalidProof), env_of game_matched)" by blast
  from r1 r2 r3 r4 r5 show ?thesis by blast
qed

subsection \<open>Completion\<close>

text \<open>
  C5. A reachable session is inactive exactly when \<open>pairs_found\<close> equals half the number
  of cards. An accepted flip starts from an active session; it leaves the session inactive
  exactly when \<open>pairs_found\<close> has reached that number, and exactly then it calls the hub's
  \<open>end_game\<close>, once, with \<open>player1_won = score1 > score2\<close>; no other path of the
  contract clears \<open>is_active\<close>.
\<close>

theorem completion_and_hub_notification:
  "(reachable g \<longrightarrow>
      (is_active g \<longleftrightarrow> unat (pairs_found g) \<noteq> length (cards g) div 2))
   \<and> (reachable g \<and> games env sid = Some g
        \<and> flip_card env caller sid pos rv zkp pis = (Inr (), env') \<longrightarrow>
      (\<exists>g'. games env' sid = Some g' \<and> is_active g
         \<and> (is_active g' \<longleftrightarrow> unat (pairs_found g') \<noteq> length (cards g') div 2)
         \<and> (if is_active g' then hub_calls env' = hub_calls env
              else \<exists>hub. game_hub_address env = Some hub
                     \<and> hub_calls env' = hub_calls env @ [HubEndGame hub sid (score2 g' < score1 g')])))"
proof -
  have eight: "\<And>x :: u32. x = 8 \<longleftrightarrow> unat x = 8"
    by (simp add: word_eq_iff_unsigned[where ?'a=nat])
  have inv: "\<And>h. reachable h \<Longrightarrow> (is_active h \<longleftrightarrow> unat (pairs_found h) \<noteq> length (cards h) div 2)"
    by (drule reachable_inv) (simp add: session_inv_def eight)
  have step: "\<exists>g'. games env' sid = Some g' \<and> is_active g
         \<and> (is_active g' \<longleftrightarrow> unat (pairs_found g') \<noteq> length (cards g') div 2)
         \<and> (if is_active g' then hub_calls env' = hub_calls env
              else \<exists>hub. game_hub_address env = Some hub
                     \<and> hub_calls env' = hub_calls env @ [HubEndGame hub sid (score2 g' < score1 g')])"
    if r: "reachable g" and g: "games env sid = Some g"
      and acc: "flip_card env caller sid pos rv zkp pis = (Inr (), env')"
  proof -
    from flip_card_with_accepted[OF acc[unfolded flip_card_def]] g
    obtain g1 where a: "is_active g" "game_logic g pos rv = Inr g1"
      and b: "if pairs_found g1 = 8
               then \<exists>hub. game_hub_address env = Some hub
                      \<and> env' = env \<lparr> hub_calls := hub_calls env @ [HubEndGame hub sid (score2 g1 < score1 g1)],
                                     games := (games env)(sid \<mapsto> g1 \<lparr> is_active := False \<rparr>) \<rparr>
               else env' = env \<lparr> games := (games env)(sid \<mapsto> g1) \<rparr>"
      by auto
    let ?g' = "if pairs_found g1 = 8 then g1 \<lparr> is_active := False \<rparr> else g1"
    from b have g': "games env' sid = Some ?g'"
      by (auto split: if_splits)
    from flipped[OF r g acc g'] have "reachable ?g'" .
    from inv[OF this] have act: "is_active ?g' \<longleftrightarrow> unat (pairs_found ?g') \<noteq> length (cards ?g') div 2" .
    from game_logic_inv[OF reachable_inv[OF r] a] have "session_inv ?g'" .
    then have act8: "is_active ?g' \<longleftrightarrow> pairs_found ?g' \<noteq> 8"
      by (simp add: session_inv_def)
    show ?thesis
    proof (cases "pairs_found g1 = 8")
      case True
      with b obtain hub where "game_hub_address env = Some hub"
        "hub_calls env' = hub_calls env @ [HubEndGame hub sid (score2 g1 < score1 g1)]"
        by auto
      with True a(1) g' act show ?thesis by auto
    next
      case False
      with b have "hub_calls env' = hub_calls env" by simp
      with False a(1) g' act act8 show ?thesis by auto
    qed
  qed
  from inv step show ?thesis by blast
qed

text \<open>
  The last flip of a game in which each player found four pairs: the session becomes inactive
  with 8 pairs, and the hub is told that player 1 did not win.
\<close>

theorem completion_and_hub_notification_witness:
  "reachable game_tie_last \<and> is_active game_tie_last
   \<and> fst (flip_card (env_of game_tie_last) bob 1 15 7 proof_128 []) = Inr ()
   \<and> (\<exists>g'. games (snd (flip_card (env_of game_tie_last) bob 1 15 7 proof_128 [])) 1 = Some g'
         \<and> \<not> is_active g' \<and> unat (pairs_found g') = 8 \<and> length (cards g') div 2 = 8
         \<and> score1 g' = 4 \<and> score2 g' = 4
         \<and> hub_calls (snd (flip_card (env_of game_tie_last) bob 1 15 7 proof_128 []))
               = [HubEndGame hub_id 1 False])"
proof -
  have acc: "fst (flip_card (env_of game_tie_last) bob 1 15 7 proof_128 []) = Inr ()"
    by code_simp
  have fin: "games (snd (flip_card (env_of game_tie_last) bob 1 15 7 proof_128 [])) 1 = Some game_tie_final"
    by code_simp
  have fin_vals: "\<not> is_active game_tie_final" "unat (pairs_found game_tie_final) = 8"
    "length (cards game_tie_final) div 2 = 8" "score1 game_tie_final = 4" "score2 game_tie_final = 4"
    by (simp_all add: game_tie_final_def game_new_def)
  have hub: "game_hub_address (env_of game_tie_last) = Some hub_id" "hub_calls (env_of game_tie_last) = []"
    by (simp_all add: env_of_def)
  from completion_and_hub_notification[of game_tie_last "env_of game_tie_last" 1 bob 15 7 proof_128 "[]"
      "snd (flip_card (env_of game_tie_last) bob 1 15 7 proof_128 [])"]
    reachable_game_tie_last env_of_game accepted_pair[OF acc]
  have "\<exists>g'. games (snd (flip_card (env_of game_tie_last) bob 1 15 7 proof_128 [])) 1 = Some g' \<and> is_active game_tie_last
         \<and> (is_active g' \<longleftrightarrow> unat (pairs_found g') \<noteq> length (cards g') div 2)
         \<and> (if is_active g' then hub_calls (snd (flip_card (env_of game_tie_last) bob 1 15 7 proof_128 [])) = hub_calls (env_of game_tie_last)
              else \<exists>hub. game_hub_address (env_of game_tie_last) = Some hub
                     \<and> hub_calls (snd (flip_card (env_of game_tie_last) bob 1 15 7 proof_128 [])) = hub_calls (env_of game_tie_last) @ [HubEndGame hub 1 (score2 g' < score1 g')])"
    by blast
  with fin fin_vals hub reachable_game_tie_last acc show ?thesis
    by auto
qed

subsection \<open>The pending flip\<close>

text \<open>
  C6. The pending flip is the one slot (\<open>flip_one\<close>, \<open>flip_one_value\<close>). It is empty in
  a session that \<open>start_game\<close> creates; in a reachable session both halves are set or neither
  is; an accepted flip that finds it empty stores (position, revealed value) and leaves the
  turn, the cards, the scores and \<open>pairs_found\<close> as they are; an accepted flip that finds
  it set clears it, whether or not the cards match.
\<close>

theorem pending_flip_slot:
  "(start_game env0 addr signers sid0 p1 p2 pts1 pts2 c = (Inr r, env1) \<longrightarrow>
      (\<exists>g0. games env1 sid0 = Some g0 \<and> flip_one g0 = None \<and> flip_one_value g0 = None))
   \<and> (reachable g \<longrightarrow> (flip_one g = None \<longleftrightarrow> flip_one_value g = None))
   \<and> (games env sid = Some g
        \<and> flip_card_with v env caller sid pos rv zkp pis = (Inr (), env') \<longrightarrow>
      (\<exists>g'. games env' sid = Some g'
         \<and> (case flip_one g of
               None \<Rightarrow> flip_one g' = Some pos \<and> flip_one_value g' = Some rv
                        \<and> current_turn g' = current_turn g \<and> cards g' = cards g
                        \<and> score1 g' = score1 g \<and> score2 g' = score2 g
                        \<and> pairs_found g' = pairs_found g
             | Some posA \<Rightarrow> flip_one g' = None \<and> flip_one_value g' = None)))"
proof -
  have a: "\<exists>g0. games env1 sid0 = Some g0 \<and> flip_one g0 = None \<and> flip_one_value g0 = None"
    if "start_game env0 addr signers sid0 p1 p2 pts1 pts2 c = (Inr r, env1)"
    using start_game_created[OF that] by simp
  have b: "flip_one g = None \<longleftrightarrow> flip_one_value g = None" if "reachable g"
    using reachable_inv[OF that] by (simp add: session_inv_def)
  have c: "\<exists>g'. games env' sid = Some g'
         \<and> (case flip_one g of
               None \<Rightarrow> flip_one g' = Some pos \<and> flip_one_value g' = Some rv
                        \<and> current_turn g' = current_turn g \<and> cards g' = cards g
                        \<and> score1 g' = score1 g \<and> score2 g' = score2 g
                        \<and> pairs_found g' = pairs_found g
             | Some posA \<Rightarrow> flip_one g' = None \<and> flip_one_value g' = None)"
    if g: "games env sid = Some g"
      and acc: "flip_card_with v env caller sid pos rv zkp pis = (Inr (), env')"
  proof -
    from flip_card_accepted_game[OF acc g]
    obtain g1 where gl: "game_logic g pos rv = Inr g1"
      and g': "games env' sid = Some (if pairs_found g1 = 8 then g1 \<lparr> is_active := False \<rparr> else g1)"
      by auto
    show ?thesis
    proof (cases "flip_one g")
      case None
      with gl have "g1 = g \<lparr> flip_one := Some pos, flip_one_value := Some rv \<rparr>"
        by (simp add: game_logic_first)
      with None g' show ?thesis by auto
    next
      case (Some posA)
      with gl have "flip_one g1 = None \<and> flip_one_value g1 = None"
        by (auto simp: game_logic_def split: option.splits if_splits sum.splits)
      with Some g' show ?thesis by auto
    qed
  qed
  from a b c show ?thesis by blast
qed

text \<open>
  Creation, the first flip of position 1 and the second flip of position 9.
\<close>

theorem pending_flip_slot_witness:
  "(\<exists>g0. games (snd (start_game env_empty contract_id [alice, bob] 1 alice bob 100 100 commitment_A)) 1 = Some g0
         \<and> flip_one g0 = None \<and> flip_one_value g0 = None)
   \<and> reachable game_first \<and> flip_one game_first = Some 1 \<and> flip_one_value game_first = Some 1
   \<and> (\<exists>g'. games (snd (flip_card_with verify_card_reveal_proof (env_of game_new) alice 1 1 1 proof_128 [])) 1 = Some g'
         \<and> flip_one g' = Some 1 \<and> flip_one_value g' = Some 1 \<and> current_turn g' = alice
         \<and> cards g' = replicate 16 FaceDown)
   \<and> (\<exists>g'. games (snd (flip_card_with verify_card_reveal_proof (env_of game_first) alice 1 9 1 proof_128 [])) 1 = Some g'
         \<and> flip_one g' = None \<and> flip_one_value g' = None)"
proof -
  have a0: "fst (start_game env_empty contract_id [alice, bob] 1 alice bob 100 100 commitment_A) = Inr 1"
    by code_simp
  have a1: "fst (flip_card_with verify_card_reveal_proof (env_of game_new) alice 1 1 1 proof_128 []) = Inr ()"
    by code_simp
  have a2: "fst (flip_card_with verify_card_reveal_proof (env_of game_first) alice 1 9 1 proof_128 []) = Inr ()"
    by code_simp
  have v: "flip_one game_new = None" "flip_one_value game_new = None" "current_turn game_new = alice"
    "cards game_new = replicate 16 FaceDown" "flip_one game_first = Some 1"
    "flip_one_value game_first = Some 1"
    by (simp_all add: game_new_def game_first_def)
  have s0: "start_game env_empty contract_id [alice, bob] 1 alice bob 100 100 commitment_A
      = (Inr 1, snd (start_game env_empty contract_id [alice, bob] 1 alice bob 100 100 commitment_A))"
    using a0 by (metis prod.collapse)
  from pending_flip_slot[THEN conjunct1, THEN mp, OF s0]
  have w0: "\<exists>g0. games (snd (start_game env_empty contract_id [alice, bob] 1 alice bob 100 100 commitment_A)) 1 = Some g0
         \<and> flip_one g0 = None \<and> flip_one_value g0 = None" .
  from pending_flip_slot[THEN conjunct2, THEN conjunct1, THEN mp, OF reachable_game_first]
  have wr: "flip_one game_first = None \<longleftrightarrow> flip_one_value game_first = None" .
  from pending_flip_slot[THEN conjunct2, THEN conjunct2, THEN mp, OF conjI[OF env_of_game accepted_pair[OF a1]]] v
  have w1: "\<exists>g'. games (snd (flip_card_with verify_card_reveal_proof (env_of game_new) alice 1 1 1 proof_128 [])) 1 = Some g'
         \<and> flip_one g' = Some 1 \<and> flip_one_value g' = Some 1 \<and> current_turn g' = alice
         \<and> cards g' = replicate 16 FaceDown"
    by auto
  from pending_flip_slot[THEN conjunct2, THEN conjunct2, THEN mp, OF conjI[OF env_of_game accepted_pair[OF a2]]] v
  have w2: "\<exists>g'. games (snd (flip_card_with verify_card_reveal_proof (env_of game_first) alice 1 9 1 proof_128 [])) 1 = Some g'
         \<and> flip_one g' = None \<and> flip_one_value g' = None"
    by auto
  from w0 w1 w2 wr reachable_game_first v show ?thesis by blast
qed

subsection \<open>The verifier\<close>




subsection \<open>Session creation with one player twice\<close>





section \<open>Properties of the client\<close>

subsection \<open>The retry loop\<close>

lemma poll_events: "poll t gs k i game = (r, evs) \<Longrightarrow> submissions evs = 0 \<and> backoffs evs = [] \<and> Refresh \<notin> set evs"
proof (induction t gs k i game arbitrary: r evs rule: poll.induct)
  case (1 t gameState k i game)
  note unfold = poll.simps[of t gameState k i game]
  show ?case
  proof (cases "i < 3")
    case False
    with "1.prems" unfold show ?thesis by (auto simp: submissions_def backoffs_def)
  next
    case True
    show ?thesis
    proof (cases "getGame t k i")
      case (Inl m)
      with True "1.prems" unfold show ?thesis by (auto simp: submissions_def backoffs_def)
    next
      case (Inr go)
      show ?thesis
      proof (cases go)
        case None
        obtain r' evs' where p: "poll t gameState k (i + 1) None = (r', evs')"
          by (cases "poll t gameState k (i + 1) None") auto
        from "1.IH"(1)[OF True Inr None p] have "submissions evs' = 0 \<and> backoffs evs' = [] \<and> Refresh \<notin> set evs'" .
        moreover from True Inr None p "1.prems" unfold have "evs = Query # evs'" by simp
        ultimately show ?thesis
          by (auto simp: submissions_def backoffs_def)
      next
        case (Some g)
        show ?thesis
        proof (cases "flip_one gameState \<noteq> None \<and> flip_one g = None")
          case brk: True
          with True Inr Some "1.prems" unfold have "evs = [Query]" by auto
          then show ?thesis by (auto simp: submissions_def backoffs_def)
        next
          case nobrk: False
          obtain r' evs' where p: "poll t gameState k (i + 1) (Some g) = (r', evs')"
            by (cases "poll t gameState k (i + 1) (Some g)") auto
          show ?thesis
          proof (cases "i < 2")
            case lt: True
            from "1.IH"(2)[OF True Inr Some nobrk lt p]
            have "submissions evs' = 0 \<and> backoffs evs' = [] \<and> Refresh \<notin> set evs'" .
            moreover from True Inr Some nobrk lt p "1.prems" unfold have "evs = Query # Wait 1000 # evs'"
              by auto
            ultimately show ?thesis
              by (auto simp: submissions_def backoffs_def)
          next
            case ge: False
            from "1.IH"(3)[OF True Inr Some nobrk ge p]
            have "submissions evs' = 0 \<and> backoffs evs' = [] \<and> Refresh \<notin> set evs'" .
            moreover from True Inr Some nobrk ge p "1.prems" unfold have "evs = Query # evs'"
              by auto
            ultimately show ?thesis
              by (auto simp: submissions_def backoffs_def)
          qed
        qed
      qed
    qed
  qed
qed

lemma attempt_events:
  "attempt t gs k = (r, evs) \<Longrightarrow> submissions evs = 1 \<and> backoffs evs = [] \<and> Refresh \<notin> set evs"
proof -
  assume a: "attempt t gs k = (r, evs)"
  obtain pr pevs where p: "poll t gs k 0 None = (pr, pevs)"
    by (cases "poll t gs k 0 None") auto
  from poll_events[OF p] have pe: "submissions pevs = 0" "backoffs pevs = []" "Refresh \<notin> set pevs"
    by auto
  from a p pe show ?thesis
    by (auto simp: attempt_def submissions_def backoffs_def split: option.splits sum.splits)
qed


lemma submissions_simps:
  "submissions [] = 0"
  "submissions (xs @ ys) = submissions xs + submissions ys"
  "submissions (Backoff d # xs) = submissions xs"
  "submissions (Refresh # xs) = submissions xs"
  "submissions (SetGameState g # xs) = submissions xs"
  by (simp_all add: submissions_def)

lemma backoffs_simps:
  "backoffs [] = []"
  "backoffs (xs @ ys) = backoffs xs @ backoffs ys"
  "backoffs (Backoff d # xs) = d # backoffs xs"
  "backoffs (Refresh # xs) = backoffs xs"
  "backoffs (SetGameState g # xs) = backoffs xs"
  by (simp_all add: backoffs_def)

lemma retry_loop_spec:
  "flip_retry_loop t gs n k lastError = (out, evs) \<Longrightarrow> 0 < n \<Longrightarrow>
     0 < submissions evs \<and> submissions evs \<le> n
     \<and> (\<forall>j. Suc j < submissions evs \<longrightarrow>
            (\<exists>m. fst (attempt t gs (k + j)) = Inl m \<and> is_transient m))
     \<and> backoffs evs = map (\<lambda>j. 1000 * (5 - int n + int j)) [0 ..< submissions evs - 1]
     \<and> last_attempt_ok t gs n (k + submissions evs - 1) out evs"
proof (induction n arbitrary: k lastError out evs)
  case 0
  then show ?case by simp
next
  case (Suc n)
  obtain r e where a: "attempt t gs k = (r, e)"
    by (cases "attempt t gs k") auto
  from attempt_events[OF a] have ev: "submissions e = 1" "backoffs e = []" "Refresh \<notin> set e"
    by auto
  show ?case
  proof (cases r)
    case (Inr game)
    with a Suc.prems(1) have "out = Returned" "evs = e" by auto
    with a Inr ev show ?thesis
      by (simp add: last_attempt_ok_def)
  next
    case (Inl m)
    show ?thesis
    proof (cases "is_transient m \<and> 1 < Suc n")
      case True
      then have n0: "0 < n" by simp
      obtain out' evs' where rec: "flip_retry_loop t gs n (Suc k) (Some m) = (out', evs')"
        by (cases "flip_retry_loop t gs n (Suc k) (Some m)") auto
      from Suc.IH[OF rec n0]
      have ih: "0 < submissions evs'" "submissions evs' \<le> n"
        "\<forall>j. Suc j < submissions evs' \<longrightarrow>
            (\<exists>m. fst (attempt t gs (Suc k + j)) = Inl m \<and> is_transient m)"
        "backoffs evs' = map (\<lambda>j. 1000 * (5 - int n + int j)) [0 ..< submissions evs' - 1]"
        "last_attempt_ok t gs n (Suc k + submissions evs' - 1) out' evs'"
        by auto
      from a Inl True rec Suc.prems(1)
      have res: "out = out'" "evs = e @ Backoff (1000 * (4 - int n)) # evs'"
        by auto
      have s: "submissions evs = Suc (submissions evs')"
        by (simp add: res submissions_simps ev)
      have c1: "0 < submissions evs \<and> submissions evs \<le> Suc n"
        using s ih(2) by simp
      have c2: "\<exists>m. fst (attempt t gs (k + j)) = Inl m \<and> is_transient m"
        if j: "Suc j < submissions evs" for j
      proof (cases j)
        case 0
        with a Inl True show ?thesis by simp
      next
        case (Suc j')
        with j s have "Suc j' < submissions evs'" by simp
        with ih(3) have "\<exists>m. fst (attempt t gs (Suc k + j')) = Inl m \<and> is_transient m" by blast
        with Suc show ?thesis by simp
      qed
      obtain q where q: "submissions evs' = Suc q"
        using ih(1) by (cases "submissions evs'") auto
      have c3: "backoffs evs = map (\<lambda>j. 1000 * (5 - int (Suc n) + int j)) [0 ..< submissions evs - 1]"
      proof -
        have "backoffs evs = (1000 * (4 - int n)) # map (\<lambda>j. 1000 * (5 - int n + int j)) [0 ..< q]"
          using ih(4) q by (simp add: res backoffs_simps ev)
        also have "\<dots> = map (\<lambda>j. 1000 * (5 - int (Suc n) + int j)) (0 # map Suc [0 ..< q])"
          by (simp add: comp_def)
        also have "0 # map Suc [0 ..< q] = [0 ..< Suc q]"
          by (metis map_Suc_upt upt_conv_Cons zero_less_Suc)
        finally show ?thesis by (simp add: s q)
      qed
      have idx: "k + submissions evs - 1 = k + submissions evs'"
        using s by simp
      have ih5: "last_attempt_ok t gs n (k + submissions evs') out' evs'"
        using ih(5) by simp
      have c4: "last_attempt_ok t gs (Suc n) (k + submissions evs - 1) out evs"
      proof -
        have rf: "Refresh \<in> set evs \<longleftrightarrow> Refresh \<in> set evs'"
          using ev(3) by (simp add: res(2))
        show ?thesis
        proof (cases "fst (attempt t gs (k + submissions evs'))")
          case (Inr game)
          with ih5 rf res(1) show ?thesis
            unfolding idx by (simp add: last_attempt_ok_def)
        next
          case (Inl m')
          with ih5 rf res(1) s show ?thesis
            unfolding idx by (simp add: last_attempt_ok_def split: if_splits sum.splits)
        qed
      qed
      from c1 c2 c3 c4 show ?thesis by blast
    next
      case False
      show ?thesis
      proof (cases "is_not_your_turn m")
        case nyt: True
        from a Inl False nyt Suc.prems(1)
        have res: "(\<exists>m'. refreshGame t k = Inl m' \<and> out = Thrown m' \<and> evs = e @ [Refresh])
            \<or> (refreshGame t k = Inr None \<and> out = Thrown stale_message \<and> evs = e @ [Refresh])
            \<or> (\<exists>g. refreshGame t k = Inr (Some g) \<and> out = Thrown stale_message
                     \<and> evs = e @ [Refresh, SetGameState g])"
          by (auto split: sum.splits option.splits)
        then have s: "submissions evs = 1" and b: "backoffs evs = []" and rf: "Refresh \<in> set evs"
          using ev by (auto simp: submissions_simps backoffs_simps)
        from res a Inl False nyt s b rf show ?thesis
          by (auto simp: last_attempt_ok_def)
      next
        case other: False
        from a Inl False other Suc.prems(1) have res: "out = Thrown m" "evs = e"
          by auto
        with a Inl False other ev show ?thesis
          by (auto simp: last_attempt_ok_def)
      qed
    qed
  qed
qed


text \<open>
  C10. The loop of \<open>handleFlipCard\<close>, started with \<open>retries = 3\<close>: it submits at least
  once and at most three times; every submission but the last failed with a message that
  contains \<open>TRY_AGAIN_LATER\<close> or \<open>txBadSeq\<close>; a last failure that is transient has used
  up the budget; on a failure with \<open>Error(Contract, #3)\<close> that is not retried the handler
  queries the session once more and throws the "state was stale, try again" error (or the
  error of that query); every other failure is thrown on as it is, without a query.
  The delay before a retry is \<open>1000 * (4 - retries)\<close> ms: 2000 ms before the second
  submission and 3000 ms before the third. It grows by 1000 ms with each retry; it is not
  multiplied, as the comment "exponential backoff" beside it says.
\<close>

theorem flip_retry_policy:
  assumes "flip_retry_loop t gameState 3 0 None = (out, evs)"
  shows "1 \<le> submissions evs \<and> submissions evs \<le> 3
     \<and> (\<forall>j. Suc j < submissions evs \<longrightarrow>
            (\<exists>m. fst (attempt t gameState j) = Inl m \<and> is_transient m))
     \<and> backoffs evs = take (submissions evs - 1) [2000, 3000]
     \<and> (\<forall>i. Suc i < length (backoffs evs) \<longrightarrow>
            backoffs evs ! Suc i = backoffs evs ! i + 1000)
     \<and> (case fst (attempt t gameState (submissions evs - 1)) of
          Inr game \<Rightarrow> out = Returned \<and> Refresh \<notin> set evs
        | Inl m \<Rightarrow>
            (is_transient m \<longrightarrow> submissions evs = 3)
            \<and> (if is_not_your_turn m
               then Refresh \<in> set evs
                    \<and> (case refreshGame t (submissions evs - 1) of
                          Inl m' \<Rightarrow> out = Thrown m'
                        | Inr game \<Rightarrow> out = Thrown stale_message)
               else out = Thrown m \<and> Refresh \<notin> set evs))"
proof -
  from retry_loop_spec[OF assms]
  have a: "0 < submissions evs" "submissions evs \<le> 3"
    and b: "\<forall>j. Suc j < submissions evs \<longrightarrow>
            (\<exists>m. fst (attempt t gameState (0 + j)) = Inl m \<and> is_transient m)"
    and c: "backoffs evs = map (\<lambda>j. 1000 * (5 - int 3 + int j)) [0 ..< submissions evs - 1]"
    and d: "last_attempt_ok t gameState 3 (0 + submissions evs - 1) out evs"
    by simp_all
  from a have s: "submissions evs = 1 \<or> submissions evs = 2 \<or> submissions evs = 3"
    by arith
  have two: "[0 ..< 2] = [0, Suc 0]"
    by (simp add: upt_rec)
  from s c have c': "backoffs evs = take (submissions evs - 1) [2000, 3000]"
    by (auto simp: two)
  from s c' have e: "\<forall>i. Suc i < length (backoffs evs) \<longrightarrow>
            backoffs evs ! Suc i = backoffs evs ! i + 1000"
    by auto
  from d have d': "(case fst (attempt t gameState (submissions evs - 1)) of
          Inr game \<Rightarrow> out = Returned \<and> Refresh \<notin> set evs
        | Inl m \<Rightarrow>
            (is_transient m \<longrightarrow> submissions evs = 3)
            \<and> (if is_not_your_turn m
               then Refresh \<in> set evs
                    \<and> (case refreshGame t (submissions evs - 1) of
                          Inl m' \<Rightarrow> out = Thrown m'
                        | Inr game \<Rightarrow> out = Thrown stale_message)
               else out = Thrown m \<and> Refresh \<notin> set evs))"
    by (auto simp: last_attempt_ok_def split: sum.splits if_splits)
  from a b c' e d' show ?thesis by simp
qed

text \<open>
  A transport that is always busy is tried three times, with delays of 2000 and 3000 ms, the
  second not twice the first; a \<open>NotYourTurn\<close> rejection is not retried, the session is read
  again and the stale-state message is shown; a rejected proof is shown as it is.
\<close>

theorem flip_retry_policy_witness:
  "flip_retry_loop transport_busy game_new 3 0 None
     = (Thrown ''Sending the transaction failed: TRY_AGAIN_LATER'',
        [Submit, Backoff 2000, Submit, Backoff 3000, Submit])
   \<and> submissions [Submit, Backoff 2000, Submit, Backoff 3000, Submit] = 3
   \<and> backoffs [Submit, Backoff 2000, Submit, Backoff 3000, Submit] = [2000, 3000]
   \<and> [2000, 3000 :: int] ! 1 = [2000, 3000] ! 0 + 1000
   \<and> [2000, 3000 :: int] ! 1 \<noteq> 2 * [2000, 3000] ! 0
   \<and> handleFlipCard_submit transport_busy game_new
     = [Submit, Backoff 2000, Submit, Backoff 3000, Submit,
        SetError ''Network is busy. Please try again in a moment.'']
   \<and> flip_retry_loop transport_stale game_new 3 0 None
     = (Thrown stale_message, [Submit, Refresh, SetGameState game_missed])
   \<and> handleFlipCard_submit transport_stale game_new
     = [Submit, Refresh, SetGameState game_missed, SetError stale_message]
   \<and> handleFlipCard_submit transport_proof_rejected game_new
     = [Submit, SetError ''HostError: Error(Contract, #5)'']"
proof -
  have r1: "flip_retry_loop transport_busy game_new 3 0 None
     = (Thrown ''Sending the transaction failed: TRY_AGAIN_LATER'',
        [Submit, Backoff 2000, Submit, Backoff 3000, Submit])"
    by code_simp
  have r2: "flip_retry_loop transport_stale game_new 3 0 None
     = (Thrown stale_message, [Submit, Refresh, SetGameState game_missed])"
    by code_simp
  have h1: "handleFlipCard_submit transport_busy game_new
     = [Submit, Backoff 2000, Submit, Backoff 3000, Submit,
        SetError ''Network is busy. Please try again in a moment.'']"
    by code_simp
  have h2: "handleFlipCard_submit transport_stale game_new
     = [Submit, Refresh, SetGameState game_missed, SetError stale_message]"
    by code_simp
  have h3: "handleFlipCard_submit transport_proof_rejected game_new
     = [Submit, SetError ''HostError: Error(Contract, #5)'']"
    by code_simp
  from flip_retry_policy[OF r1]
  have p1: "submissions [Submit, Backoff 2000, Submit, Backoff 3000, Submit] \<le> 3"
    "backoffs [Submit, Backoff 2000, Submit, Backoff 3000, Submit] =
       take (submissions [Submit, Backoff 2000, Submit, Backoff 3000, Submit] - 1) [2000, 3000]"
    by simp_all
  have s: "submissions [Submit, Backoff 2000, Submit, Backoff 3000, Submit] = 3"
    by (simp add: submissions_def)
  from p1 s have b: "backoffs [Submit, Backoff 2000, Submit, Backoff 3000, Submit] = [2000, 3000]"
    by simp
  from r1 r2 h1 h2 h3 s b show ?thesis by simp
qed

subsection \<open>The exported deck data\<close>

lemma digit_char_props:
  "d < 10 \<Longrightarrow> is_digit (digit_char d) \<and> (of_char (digit_char d) :: nat) - 48 = d"
  by (simp add: digit_char_def is_digit_def)

lemma decimal_digits: "c \<in> set (decimal n) \<Longrightarrow> is_digit c"
proof (induction n arbitrary: c rule: decimal.induct)
  case (1 n)
  show ?case
  proof (cases "n < 10")
    case True
    with "1.prems" show ?thesis
      by (simp add: decimal.simps[of n] digit_char_props)
  next
    case False
    with "1.prems" have "c \<in> set (decimal (n div 10)) \<or> c = digit_char (n mod 10)"
      by (auto simp: decimal.simps[of n])
    with "1.IH"[OF False] show ?thesis
      by (auto simp: digit_char_props)
  qed
qed

lemma decimal_nonempty: "decimal n \<noteq> []"
  by (simp add: decimal.simps[of n])

lemma decimal_value: "foldl (\<lambda>a c. 10 * a + (of_char c - 48)) 0 (decimal n) = n"
proof (induction n rule: decimal.induct)
  case (1 n)
  show ?case
  proof (cases "n < 10")
    case True
    then show ?thesis
      by (simp add: decimal.simps[of n] digit_char_props)
  next
    case False
    have "n mod 10 < 10" by simp
    with "1.IH"[OF False] False show ?thesis
      by (simp add: decimal.simps[of n] digit_char_props)
  qed
qed

lemma takeWhile_stop:
  "(\<And>x. x \<in> set xs \<Longrightarrow> P x) \<Longrightarrow> \<not> P c \<Longrightarrow>
   takeWhile P (xs @ c # r) = xs \<and> dropWhile P (xs @ c # r) = c # r"
  by (induction xs) auto

lemma parse_number_decimal:
  "\<not> is_digit c \<Longrightarrow> parse_number (decimal n @ c # r) = Some (n, c # r)"
  using takeWhile_stop[of "decimal n" is_digit c r] decimal_digits[of _ n] decimal_nonempty[of n]
  by (simp add: parse_number_def decimal_value)

lemma not_digit_sep: "\<not> is_digit (CHR '','')" "\<not> is_digit (CHR '']'')"
  by (simp_all add: is_digit_def)

lemma parse_elems_json:
  "parse_elems (json_elems (x # xs) @ CHR '']'' # r) = Some (x # xs, r)"
proof (induction xs arbitrary: x)
  case Nil
  show ?case
    by (simp add: parse_elems.simps[of "decimal x @ CHR '']'' # r"]
        parse_number_decimal[OF not_digit_sep(2)])
next
  case (Cons y ys)
  have "json_elems (x # y # ys) @ CHR '']'' # r
      = decimal x @ CHR '','' # (json_elems (y # ys) @ CHR '']'' # r)"
    by simp
  then show ?case
    by (simp add: parse_elems.simps[of "decimal x @ CHR '','' # (json_elems (y # ys) @ CHR '']'' # r)"]
        parse_number_decimal[OF not_digit_sep(1)] Cons.IH)
qed

lemma parse_array_json: "parse_array (json_number_array xs @ r) = Some (xs, r)"
proof (cases xs)
  case Nil
  then show ?thesis by (simp add: parse_array_def json_number_array_def)
next
  case (Cons x xs')
  have ne: "json_elems (x # xs') @ CHR '']'' # r \<noteq> []" by simp
  have hd: "hd (json_elems (x # xs') @ CHR '']'' # r) \<noteq> CHR '']''"
  proof -
    have "hd (json_elems (x # xs') @ CHR '']'' # r) = hd (decimal x)"
      using decimal_nonempty[of x] by (cases xs') simp_all
    moreover have "is_digit (hd (decimal x))"
      using decimal_digits[of "hd (decimal x)" x] decimal_nonempty[of x] by simp
    ultimately show ?thesis using not_digit_sep(2) by metis
  qed
  obtain c rest where cr: "json_elems (x # xs') @ CHR '']'' # r = c # rest"
    using ne by (cases "json_elems (x # xs') @ CHR '']'' # r") auto
  with hd have "c \<noteq> CHR '']''" by simp
  with cr parse_elems_json[of x xs' r] Cons show ?thesis
    by (simp add: parse_array_def json_number_array_def)
qed

lemma json_escape_plain: "plain_char c \<Longrightarrow> json_escape c = [c]"
  by (auto simp: plain_char_def json_escape_def)

lemma json_string_plain:
  "(\<And>c. c \<in> set s \<Longrightarrow> plain_char c) \<Longrightarrow> json_string s = dq # s @ [dq]"
proof -
  assume p: "\<And>c. c \<in> set s \<Longrightarrow> plain_char c"
  then have "concat (map json_escape s) = s"
    by (induction s) (simp_all add: json_escape_plain)
  then show ?thesis by (simp add: json_string_def)
qed

lemma parse_string_json:
  assumes "\<And>c. c \<in> set s \<Longrightarrow> plain_char c"
  shows "parse_string (json_string s @ r) = Some (s, r)"
proof -
  have nd: "\<not> plain_char dq" by (simp add: plain_char_def)
  from takeWhile_stop[of s plain_char dq r, OF assms nd]
  show ?thesis
    by (simp add: json_string_plain[OF assms] parse_string_def)
qed

lemma strip_prefix_append: "strip_prefix p (p @ s) = Some s"
  by (simp add: strip_prefix_def)

lemma parse_deck_data_stringify:
  assumes "\<And>c. c \<in> set salt \<Longrightarrow> plain_char c"
    and "\<And>c. c \<in> set commitment \<Longrightarrow> plain_char c"
  shows "parse_deck_data (stringify_deck_data deck salt commitment) = Some (deck, salt, commitment)"
proof -
  let ?s6 = "''}''"
  let ?s5 = "json_string commitment @ ?s6"
  let ?s4 = "('','' @ json_key ''commitment'') @ ?s5"
  let ?s3 = "json_string salt @ ?s4"
  let ?s2 = "('','' @ json_key ''salt'') @ ?s3"
  let ?s1 = "json_number_array deck @ ?s2"
  have 0: "stringify_deck_data deck salt commitment = (''{'' @ json_key ''deck'') @ ?s1"
    by (simp add: stringify_deck_data_def)
  have 1: "strip_prefix (''{'' @ json_key ''deck'') (stringify_deck_data deck salt commitment) = Some ?s1"
    unfolding 0 by (rule strip_prefix_append)
  have 2: "parse_array ?s1 = Some (deck, ?s2)"
    by (rule parse_array_json)
  have 3: "strip_prefix ('','' @ json_key ''salt'') ?s2 = Some ?s3"
    by (rule strip_prefix_append)
  have 4: "parse_string ?s3 = Some (salt, ?s4)"
    by (rule parse_string_json[OF assms(1)])
  have 5: "strip_prefix ('','' @ json_key ''commitment'') ?s4 = Some ?s5"
    by (rule strip_prefix_append)
  have 6: "parse_string ?s5 = Some (commitment, ?s6)"
    by (rule parse_string_json[OF assms(2)])
  show ?thesis
    by (simp only: parse_deck_data_def 1 2 3 4 5 6 option.case prod.case if_True refl)
qed


text \<open>
  C9 (amended). What \<open>handleCreateGame\<close> prepares for the authority depends on the
  commitment only: with the same commitment, any other deck and salt give the same
  \<open>start_game\<close> arguments. The deck data it exports for the other player contains the
  deck and the salt themselves: the other player's client reads back exactly the dealer's
  deck, salt and commitment from it (shown for a salt and a commitment without characters
  that JSON escapes, such as a UUID and a hexadecimal digest).
\<close>

theorem create_game_disclosure:
  assumes "handleCreateGame d s c sid a1 a2 p1 p2 = Inr out"
  shows "(\<exists>out'. handleCreateGame d' s' c sid a1 a2 p1 p2 = Inr out' \<and> prepared out' = prepared out)
       \<and> ((\<forall>x \<in> set s. plain_char x) \<and> (\<forall>x \<in> set c. plain_char x) \<longrightarrow>
            handleImportAndStart_deck (exportedDeckData out) = Inr (d, s, c))"
proof -
  from assms have ok: "\<not> (p1 = None \<or> p1 = Some 0 \<or> p2 = None \<or> p2 = Some 0)" "a2 \<noteq> []"
    and out: "out = \<lparr> prepared =
                \<lparr> req_session_id = sid, req_player1 = a1,
                  req_player2 = a2, req_player1_points = the p1,
                  req_player2_points = the p2,
                  req_deck_commitment = hexToBuffer c \<rparr>,
              exportedDeckData = stringify_deck_data d s c \<rparr>"
    by (auto simp: handleCreateGame_def split: if_splits)
  have 1: "\<exists>out'. handleCreateGame d' s' c sid a1 a2 p1 p2 = Inr out' \<and> prepared out' = prepared out"
    using ok by (simp add: handleCreateGame_def out)
  have ne: "stringify_deck_data d s c \<noteq> []"
    by (simp add: stringify_deck_data_def)
  have 2: "handleImportAndStart_deck (exportedDeckData out) = Inr (d, s, c)"
    if "\<forall>x \<in> set s. plain_char x" "\<forall>x \<in> set c. plain_char x"
    using that ne by (simp add: handleImportAndStart_deck_def out parse_deck_data_stringify)
  from 1 2 show ?thesis by blast
qed

text \<open>
  The deck \<open>[0,1,0,1]\<close> with the salt \<open>salt-one\<close>.
\<close>

theorem create_game_disclosure_witness:
  "\<not> isl (handleCreateGame [0, 1, 0, 1] ''salt-one'' commitment_hex 1 alice bob (Some 1000000) (Some 1000000))
   \<and> prepared (projr (handleCreateGame [1, 0, 1, 0] ''salt-two'' commitment_hex 1 alice bob (Some 1000000) (Some 1000000)))
     = prepared (projr (handleCreateGame [0, 1, 0, 1] ''salt-one'' commitment_hex 1 alice bob (Some 1000000) (Some 1000000)))
   \<and> handleImportAndStart_deck (exportedDeckData
         (projr (handleCreateGame [0, 1, 0, 1] ''salt-one'' commitment_hex 1 alice bob (Some 1000000) (Some 1000000))))
     = Inr ([0, 1, 0, 1], ''salt-one'', commitment_hex)"
proof -
  let ?r = "handleCreateGame [0, 1, 0, 1] ''salt-one'' commitment_hex 1 alice bob (Some 1000000) (Some 1000000)"
  have ok: "\<not> isl ?r"
    by (simp add: handleCreateGame_def bob_def)
  then have r: "?r = Inr (projr ?r)"
    by (cases ?r) auto
  have p1: "\<forall>x \<in> set ''salt-one''. plain_char x"
    by code_simp
  have p2: "\<forall>x \<in> set commitment_hex. plain_char x"
    by code_simp
  from create_game_disclosure[OF r, of "[1, 0, 1, 0]" "''salt-two''"] p1 p2
  have a: "\<exists>out'. handleCreateGame [1, 0, 1, 0] ''salt-two'' commitment_hex 1 alice bob (Some 1000000) (Some 1000000) = Inr out'
            \<and> prepared out' = prepared (projr ?r)"
    and b: "handleImportAndStart_deck (exportedDeckData (projr ?r)) = Inr ([0, 1, 0, 1], ''salt-one'', commitment_hex)"
    by blast+
  from a have "prepared (projr (handleCreateGame [1, 0, 1, 0] ''salt-two'' commitment_hex 1 alice bob (Some 1000000) (Some 1000000)))
     = prepared (projr ?r)"
    by auto
  with ok b show ?thesis by simp
qed

text \<open>
  C9 as stated fails: two runs that differ in deck and salt and are given the same commitment
  export different texts; the first one starts with the deck and the salt in clear.
\<close>

theorem create_game_export_counterexample:
  "\<not> isl (handleCreateGame [0, 1, 0, 1] ''salt-one'' commitment_hex 1 alice bob (Some 1000000) (Some 1000000))
   \<and> \<not> isl (handleCreateGame [1, 0, 1, 0] ''salt-two'' commitment_hex 1 alice bob (Some 1000000) (Some 1000000))
   \<and> exportedDeckData (projr (handleCreateGame [0, 1, 0, 1] ''salt-one'' commitment_hex 1 alice bob (Some 1000000) (Some 1000000)))
     \<noteq> exportedDeckData (projr (handleCreateGame [1, 0, 1, 0] ''salt-two'' commitment_hex 1 alice bob (Some 1000000) (Some 1000000)))
   \<and> take 35 (exportedDeckData (projr (handleCreateGame [0, 1, 0, 1] ''salt-one'' commitment_hex 1 alice bob (Some 1000000) (Some 1000000))))
     = ''{'' @ [dq] @ ''deck'' @ [dq] @ '':[0,1,0,1],'' @ [dq] @ ''salt'' @ [dq] @ '':'' @ [dq] @ ''salt-one'' @ [dq]"
proof -
  have 1: "\<not> isl (handleCreateGame [0, 1, 0, 1] ''salt-one'' commitment_hex 1 alice bob (Some 1000000) (Some 1000000))"
    by (simp add: handleCreateGame_def bob_def)
  have 2: "\<not> isl (handleCreateGame [1, 0, 1, 0] ''salt-two'' commitment_hex 1 alice bob (Some 1000000) (Some 1000000))"
    by (simp add: handleCreateGame_def bob_def)
  have 3: "take 35 (exportedDeckData (projr (handleCreateGame [0, 1, 0, 1] ''salt-one'' commitment_hex 1 alice bob (Some 1000000) (Some 1000000))))
     = ''{'' @ [dq] @ ''deck'' @ [dq] @ '':[0,1,0,1],'' @ [dq] @ ''salt'' @ [dq] @ '':'' @ [dq] @ ''salt-one'' @ [dq]"
    by code_simp
  have 4: "take 35 (exportedDeckData (projr (handleCreateGame [1, 0, 1, 0] ''salt-two'' commitment_hex 1 alice bob (Some 1000000) (Some 1000000))))
     = ''{'' @ [dq] @ ''deck'' @ [dq] @ '':[1,0,1,0],'' @ [dq] @ ''salt'' @ [dq] @ '':'' @ [dq] @ ''salt-two'' @ [dq]"
    by code_simp
  have 5: "''{'' @ [dq] @ ''deck'' @ [dq] @ '':[0,1,0,1],'' @ [dq] @ ''salt'' @ [dq] @ '':'' @ [dq] @ ''salt-one'' @ [dq]
      \<noteq> ''{'' @ [dq] @ ''deck'' @ [dq] @ '':[1,0,1,0],'' @ [dq] @ ''salt'' @ [dq] @ '':'' @ [dq] @ ''salt-two'' @ [dq]"
    by simp
  from 3 4 5 have "exportedDeckData (projr (handleCreateGame [0, 1, 0, 1] ''salt-one'' commitment_hex 1 alice bob (Some 1000000) (Some 1000000)))
     \<noteq> exportedDeckData (projr (handleCreateGame [1, 0, 1, 0] ''salt-two'' commitment_hex 1 alice bob (Some 1000000) (Some 1000000)))"
    by metis
  with 1 2 3 show ?thesis by simp
qed

subsection \<open>The published commitment and the circuit\<close>

lemma generateCommitment_example: "generateCommitment [0, 1, 0, 1] ''salt'' = published_digest"
  by code_simp

lemma published_digest_large: "bn254_modulus \<le> hex_value published_digest"
  by code_simp

lemma published_digest_shape: "length published_digest = 64" "hd published_digest = CHR ''c''"
  by (simp_all add: published_digest_def)

lemma padStart64_eq:
  assumes "padStart64 h = x" "length x = 64" "hd x \<noteq> CHR ''0''"
  shows "h = x"
proof (cases "length h < 64")
  case True
  then obtain k where "64 - length h = Suc k"
    by (cases "64 - length h") auto
  with assms(1) have "hd x = CHR ''0''"
    by (auto simp: padStart64_def)
  with assms(3) show ?thesis by simp
next
  case False
  with assms(1) show ?thesis by (simp add: padStart64_def)
qed

text \<open>
  C7. For the deck \<open>[0,1,0,1]\<close> and the salt \<open>salt\<close> the digest that the dealer
  publishes is \<open>c7771e97...\<close>, a number above the BN254 modulus; the commitment that the
  proof generation computes is a public input of the circuit, a field element, whatever the
  circuit computes. The two are never equal there.
\<close>

theorem published_commitment_is_not_the_circuit_commitment:
  assumes "\<And>inputs outs. backend inputs = Some outs \<Longrightarrow> list_all is_field_element outs"
  shows "generateCommitment [0, 1, 0, 1] ''salt'' = published_digest
       \<and> computePedersenCommitment backend [0, 1, 0, 1] (salt_field ''salt'')
            \<noteq> Inr (generateCommitment [0, 1, 0, 1] ''salt'')"
proof -
  have neq: "computePedersenCommitment backend [0, 1, 0, 1] (salt_field ''salt'') \<noteq> Inr published_digest"
  proof
    assume eq: "computePedersenCommitment backend [0, 1, 0, 1] (salt_field ''salt'') = Inr published_digest"
    then obtain inputs outs where b: "backend inputs = Some outs" "3 \<le> length outs"
      and pad: "padStart64 (strip_0x (outs ! 2)) = published_digest"
      by (auto simp: computePedersenCommitment_def split: option.splits if_splits)
    have "hd published_digest \<noteq> CHR ''0''"
      by (simp add: published_digest_shape)
    from padStart64_eq[OF pad published_digest_shape(1) this]
    have h: "strip_0x (outs ! 2) = published_digest" .
    from assms[OF b(1)] b(2) have "is_field_element (outs ! 2)"
      by (simp add: list_all_length)
    with h have "hex_value published_digest < bn254_modulus"
      by (simp add: is_field_element_def)
    with published_digest_large show False by simp
  qed
  with generateCommitment_example show ?thesis by simp
qed

text \<open>
  A backend whose public inputs are the field elements 0, 0 and 42.
\<close>

theorem published_commitment_is_not_the_circuit_commitment_witness:
  "generateCommitment [0, 1, 0, 1] ''salt'' = published_digest
   \<and> computePedersenCommitment backend_fixed [0, 1, 0, 1] (salt_field ''salt'')
        \<noteq> Inr (generateCommitment [0, 1, 0, 1] ''salt'')
   \<and> computePedersenCommitment backend_fixed [0, 1, 0, 1] (salt_field ''salt'')
        = Inr (padStart64 ''2a'')"
proof -
  have l: "list_all is_field_element [''0x00'', ''0x00'', ''0x2a'']"
    by code_simp
  have f: "\<And>inputs outs. backend_fixed inputs = Some outs \<Longrightarrow> list_all is_field_element outs"
    using l by (auto simp: backend_fixed_def)
  have v: "computePedersenCommitment backend_fixed [0, 1, 0, 1] (salt_field ''salt'')
        = Inr (padStart64 ''2a'')"
    by (simp add: computePedersenCommitment_def backend_fixed_def strip_0x_def)
  have "generateCommitment [0, 1, 0, 1] ''salt'' = published_digest
       \<and> computePedersenCommitment backend_fixed [0, 1, 0, 1] (salt_field ''salt'')
            \<noteq> Inr (generateCommitment [0, 1, 0, 1] ''salt'')"
    by (rule published_commitment_is_not_the_circuit_commitment) (rule f)
  with v show ?thesis by blast
qed

end
